theory Spec2Isabelle
  imports Main
begin

chapter \<open>Per-user key/value persistence: the synchronisation hooks and the data endpoint\<close>

text \<open>
  The development embeds two source files. \<^verbatim>\<open>src/lib/use-synced-storage.ts\<close> holds the
  two React hooks \<^verbatim>\<open>useSyncedStorage\<close> (the Synced Value Store) and
  \<^verbatim>\<open>useSyncedSettings\<close> (the Settings Mirror); the second file holds the route handlers
  \<^verbatim>\<open>GET\<close>, \<^verbatim>\<open>POST\<close>, \<^verbatim>\<open>PUT\<close>, \<^verbatim>\<open>DELETE\<close> and \<^verbatim>\<open>OPTIONS\<close> of the data endpoint.
  Part one gives the definitions, part two the properties.
\<close>

section \<open>JavaScript values and the built-ins of the engine\<close>

text \<open>
  A JavaScript value as far as the two files look into it: \<^verbatim>\<open>undefined\<close>, \<^verbatim>\<open>null\<close>, a
  boolean, a string, or any other value (a number, an array, an object), which the program
  hands to the engine and never inspects by itself; \<open>'o\<close> is the type of these other values.
  Equality of values is equality of what they hold. A string is a list of characters: the
  program compares strings and tests them for emptiness, and leaves their encoding to the
  engine.
\<close>

datatype 'o js = JSUndefined | JSNull | JSBool bool | JSString string | JSOther 'o

datatype js_error =
    SyntaxError | TypeError | ReferenceError | SecurityError | QuotaExceededError
  | RemoteError | PrismaValidationError

text \<open>
  The built-ins of the engine are no code of the repository; they are parameters of every
  definition that calls them, and the properties below hold for each engine.
  \<^verbatim>\<open>JSON.parse\<close> returns a value or throws. \<^verbatim>\<open>JSON.stringify\<close> returns a text, or
  \<^verbatim>\<open>undefined\<close> (\<open>None\<close>), or throws. On the other values the engine decides what
  \<^verbatim>\<open>String(x)\<close> is (it can throw), whether \<^verbatim>\<open>x\<close> is truthy, what \<^verbatim>\<open>x.name\<close> is, and
  what \<^verbatim>\<open>Object.entries(x)\<close> lists; it also decides how \<^verbatim>\<open>Object.entries\<close> indexes a
  string.
\<close>

record 'o runtime =
  JSON_parse :: "string \<Rightarrow> js_error + 'o js"
  JSON_stringify :: "'o js \<Rightarrow> js_error + string option"
  String_other :: "'o \<Rightarrow> js_error + string"
  truthy_other :: "'o \<Rightarrow> bool"
  get_other :: "'o \<Rightarrow> string \<Rightarrow> 'o js"
  entries_other :: "'o \<Rightarrow> (string \<times> 'o js) list"
  entries_string :: "string \<Rightarrow> (string \<times> 'o js) list"

text \<open>\<^verbatim>\<open>if (x)\<close> on a value, and on a string that may be \<^verbatim>\<open>null\<close>.\<close>

definition truthy :: "'o runtime \<Rightarrow> 'o js \<Rightarrow> bool" where
  "truthy rt x =
     (case x of
        JSUndefined \<Rightarrow> False
      | JSNull \<Rightarrow> False
      | JSBool b \<Rightarrow> b
      | JSString s \<Rightarrow> s \<noteq> []
      | JSOther y \<Rightarrow> truthy_other rt y)"

definition truthy_string :: "string option \<Rightarrow> bool" where
  "truthy_string s = (case s of None \<Rightarrow> False | Some t \<Rightarrow> t \<noteq> [])"

text \<open>\<^verbatim>\<open>String(x)\<close>.\<close>

definition js_String :: "'o runtime \<Rightarrow> 'o js \<Rightarrow> js_error + string" where
  "js_String rt x =
     (case x of
        JSUndefined \<Rightarrow> Inr ''undefined''
      | JSNull \<Rightarrow> Inr ''null''
      | JSBool b \<Rightarrow> Inr (if b then ''true'' else ''false'')
      | JSString s \<Rightarrow> Inr s
      | JSOther y \<Rightarrow> String_other rt y)"

text \<open>The property \<^verbatim>\<open>name\<close> that the pattern \<^verbatim>\<open>const { name } = x\<close> reads, for the two
  names of the handlers, \<^verbatim>\<open>key\<close> and \<^verbatim>\<open>value\<close>: the pattern throws on \<^verbatim>\<open>null\<close> and
  \<^verbatim>\<open>undefined\<close>, and a boolean or a string has neither property.\<close>

definition js_get :: "'o runtime \<Rightarrow> 'o js \<Rightarrow> string \<Rightarrow> js_error + 'o js" where
  "js_get rt x name =
     (case x of
        JSUndefined \<Rightarrow> Inl TypeError
      | JSNull \<Rightarrow> Inl TypeError
      | JSBool b \<Rightarrow> Inr JSUndefined
      | JSString s \<Rightarrow> Inr JSUndefined
      | JSOther y \<Rightarrow> Inr (get_other rt y name))"

text \<open>\<^verbatim>\<open>Object.entries(x)\<close>: a throw for \<^verbatim>\<open>null\<close> and \<^verbatim>\<open>undefined\<close>, nothing for a
  boolean.\<close>

definition Object_entries :: "'o runtime \<Rightarrow> 'o js \<Rightarrow> js_error + (string \<times> 'o js) list" where
  "Object_entries rt x =
     (case x of
        JSUndefined \<Rightarrow> Inl TypeError
      | JSNull \<Rightarrow> Inl TypeError
      | JSBool b \<Rightarrow> Inr []
      | JSString s \<Rightarrow> Inr (entries_string rt s)
      | JSOther y \<Rightarrow> Inr (entries_other rt y))"

text \<open>The string that \<^verbatim>\<open>localStorage.setItem(k, x)\<close> stores for an argument that is a
  string or \<^verbatim>\<open>undefined\<close>.\<close>

definition item_text :: "string option \<Rightarrow> string" where
  "item_text x = (case x of None \<Rightarrow> ''undefined'' | Some s \<Rightarrow> s)"

section \<open>The browser: Local Cache, timers, and the account data client\<close>

text \<open>
  \<^verbatim>\<open>localStorage\<close>. A profile that blocks storage raises on every access; otherwise the
  store is a map from keys to strings together with the writes the browser refuses (the
  quota is the browser's, not the program's).
\<close>

datatype local_storage =
    Blocked
  | Storage "string \<rightharpoonup> string" "string \<Rightarrow> string \<Rightarrow> bool"

text \<open>A pending \<^verbatim>\<open>setTimeout\<close> of the store: its handle, the time it is due, and the
  \<^verbatim>\<open>key\<close> and \<^verbatim>\<open>resolved\<close> its callback has captured.\<close>

record 'o timer =
  handle :: nat
  due :: nat
  cb_key :: string
  cb_resolved :: "'o js"

text \<open>Modelled from the spec: the module \<^verbatim>\<open>./user-data\<close> is not among the sources. Each
  of its three functions sends one request to the Account Data Service; a call is recorded
  with its arguments, in the order the calls are made.\<close>

datatype 'o remote_call =
    GetUserData string
  | SaveUserData string "'o js"
  | SaveUserSettings string "'o js"

record 'o world =
  window_defined :: bool
  localStorage :: local_storage
  clock :: nat
  timers :: "'o timer list"
  timer_count :: nat
  network :: "'o remote_call list"

definition getItem :: "'o world \<Rightarrow> string \<Rightarrow> js_error + string option" where
  "getItem w k =
     (if \<not> window_defined w then Inl ReferenceError
      else case localStorage w of
             Blocked \<Rightarrow> Inl SecurityError
           | Storage m refuses \<Rightarrow> Inr (m k))"

definition setItem :: "'o world \<Rightarrow> string \<Rightarrow> string \<Rightarrow> js_error + 'o world" where
  "setItem w k v =
     (if \<not> window_defined w then Inl ReferenceError
      else case localStorage w of
             Blocked \<Rightarrow> Inl SecurityError
           | Storage m refuses \<Rightarrow>
               if refuses k v then Inl QuotaExceededError
               else Inr (w\<lparr>localStorage := Storage (m(k \<mapsto> v)) refuses\<rparr>))"

text \<open>\<^verbatim>\<open>localStorage.setItem(k, JSON.stringify(x))\<close>: the argument is evaluated first and
  can throw.\<close>

definition setItem_JSON :: "'o runtime \<Rightarrow> 'o world \<Rightarrow> string \<Rightarrow> 'o js \<Rightarrow> js_error + 'o world" where
  "setItem_JSON rt w k x =
     (case JSON_stringify rt x of
        Inl e \<Rightarrow> Inl e
      | Inr text \<Rightarrow> setItem w k (item_text text))"

text \<open>Timer handles are positive, so a stored handle is truthy.\<close>

definition setTimeout :: "string \<times> 'o js \<Rightarrow> nat \<Rightarrow> 'o world \<Rightarrow> nat \<times> 'o world" where
  "setTimeout cb delay w =
     (let h = Suc (timer_count w)
      in (h, w\<lparr>timers := timers w @
                  [\<lparr>handle = h, due = clock w + delay, cb_key = fst cb, cb_resolved = snd cb\<rparr>],
               timer_count := h\<rparr>))"

definition clearTimeout :: "nat \<Rightarrow> 'o world \<Rightarrow> 'o world" where
  "clearTimeout h w = w\<lparr>timers := filter (\<lambda>t. handle t \<noteq> h) (timers w)\<rparr>"

text \<open>\<^verbatim>\<open>if (saveTimeoutRef.current) clearTimeout(saveTimeoutRef.current)\<close>.\<close>

definition clear_if_set :: "nat option \<Rightarrow> 'o world \<Rightarrow> 'o world" where
  "clear_if_set ref w =
     (case ref of None \<Rightarrow> w | Some h \<Rightarrow> if h = 0 then w else clearTimeout h w)"

section \<open>The Synced Value Store: \<^verbatim>\<open>useSyncedStorage\<close>\<close>

record options =
  debounceMs :: "nat option"
  syncOnMount :: "bool option"

text \<open>The state of one binding: its arguments, its two \<^verbatim>\<open>useState\<close> cells and its two
  refs. \<open>val\<close> is the source's \<^verbatim>\<open>value\<close>.\<close>

record 'o binding =
  key :: string
  debounce :: nat
  sync :: bool
  val :: "'o js"
  isLoading :: bool
  saveTimeoutRef :: "nat option"
  mountedRef :: bool

text \<open>The argument of the setter: a value, or a function of the previous value.\<close>

datatype 'o action = Literal "'o js" | Updater "'o js \<Rightarrow> 'o js"

text \<open>The initialiser of the first \<^verbatim>\<open>useState\<close> (lines 17 to 30).\<close>

definition initial_value :: "'o runtime \<Rightarrow> string \<Rightarrow> 'o js \<Rightarrow> 'o world \<Rightarrow> 'o js" where
  "initial_value rt k initialValue w =
     (if \<not> window_defined w then initialValue
      else case getItem w k of
             Inl e \<Rightarrow> initialValue
           | Inr None \<Rightarrow> initialValue
           | Inr (Some saved) \<Rightarrow>
               if saved \<noteq> [] then
                 (case JSON_parse rt saved of
                    Inl e \<Rightarrow> initialValue
                  | Inr v \<Rightarrow> v)
               else initialValue)"

text \<open>The first render (lines 15 to 34).\<close>

definition useSyncedStorage ::
  "'o runtime \<Rightarrow> string \<Rightarrow> 'o js \<Rightarrow> options option \<Rightarrow> 'o world \<Rightarrow> 'o binding" where
  "useSyncedStorage rt k initialValue opts w =
     (let d = (case opts of None \<Rightarrow> 1000
                | Some os \<Rightarrow> (case debounceMs os of None \<Rightarrow> 1000 | Some ms \<Rightarrow> ms));
          s = (case opts of None \<Rightarrow> True
                | Some os \<Rightarrow> (case syncOnMount os of None \<Rightarrow> True | Some f \<Rightarrow> f))
      in \<lparr>key = k, debounce = d, sync = s, val = initial_value rt k initialValue w,
          isLoading = s, saveTimeoutRef = None, mountedRef = True\<rparr>)"

text \<open>
  \<^verbatim>\<open>loadFromServer\<close> (lines 45 to 65) runs in two steps around its \<^verbatim>\<open>await\<close>. The first
  step ends the function, or throws at the token lookup (which stands outside the
  \<^verbatim>\<open>try\<close>), or sends the request and waits.
\<close>

datatype load_status = Finished | Awaiting | Threw js_error

definition loadFromServer_begin ::
  "'o binding \<times> 'o world \<Rightarrow> load_status \<times> 'o binding \<times> 'o world" where
  "loadFromServer_begin s =
     (let b = fst s; w = snd s
      in case getItem w ''token'' of
           Inl e \<Rightarrow> (Threw e, b, w)
         | Inr token \<Rightarrow>
             if \<not> truthy_string token then (Finished, b\<lparr>isLoading := False\<rparr>, w)
             else (Awaiting, b, w\<lparr>network := network w @ [GetUserData (key b)]\<rparr>))"

text \<open>The mount effect (lines 37 to 72).\<close>

definition mount :: "'o binding \<times> 'o world \<Rightarrow> load_status \<times> 'o binding \<times> 'o world" where
  "mount s =
     (let b = (fst s)\<lparr>mountedRef := True\<rparr>; w = snd s
      in if \<not> sync b then (Finished, b\<lparr>isLoading := False\<rparr>, w)
         else loadFromServer_begin (b, w))"

text \<open>How \<^verbatim>\<open>getUserData(key)\<close> settles: with the server's value (\<^verbatim>\<open>null\<close> when the key
  is absent), or with a rejection.\<close>

datatype 'o reply = Fulfilled "'o js" | Failed

text \<open>The body of the \<^verbatim>\<open>try\<close> after the \<^verbatim>\<open>await\<close> (lines 53 to 57): the error it
  throws, if any, and the state it leaves.\<close>

definition loadFromServer_try ::
  "'o runtime \<Rightarrow> 'o reply \<Rightarrow> 'o binding \<times> 'o world \<Rightarrow> js_error option \<times> 'o binding \<times> 'o world" where
  "loadFromServer_try rt r s =
     (let b = fst s; w = snd s
      in case r of
           Failed \<Rightarrow> (Some RemoteError, b, w)
         | Fulfilled serverData \<Rightarrow>
             if serverData \<noteq> JSNull \<and> mountedRef b then
               (case setItem_JSON rt w (key b) serverData of
                  Inl e \<Rightarrow> (Some e, b\<lparr>val := serverData\<rparr>, w)
                | Inr w' \<Rightarrow> (None, b\<lparr>val := serverData\<rparr>, w'))
             else (None, b, w))"

text \<open>The second step: \<^verbatim>\<open>try\<close>, \<^verbatim>\<open>catch\<close> (which only logs) and \<^verbatim>\<open>finally\<close>.\<close>

definition loadFromServer_resume ::
  "'o runtime \<Rightarrow> 'o reply \<Rightarrow> 'o binding \<times> 'o world \<Rightarrow> load_status \<times> 'o binding \<times> 'o world" where
  "loadFromServer_resume rt r s =
     (case loadFromServer_try rt r s of
        (thrown, b, w) \<Rightarrow>
          (Finished, if mountedRef b then b\<lparr>isLoading := False\<rparr> else b, w))"

text \<open>\<^verbatim>\<open>setValueAndSync\<close> (lines 75 to 106).\<close>

definition resolve :: "'o action \<Rightarrow> 'o js \<Rightarrow> 'o js" where
  "resolve newValue prev = (case newValue of Updater f \<Rightarrow> f prev | Literal v \<Rightarrow> v)"

definition setValueAndSync ::
  "'o runtime \<Rightarrow> 'o action \<Rightarrow> 'o binding \<times> 'o world \<Rightarrow> 'o binding \<times> 'o world" where
  "setValueAndSync rt newValue s =
     (let b = fst s; w = snd s;
          resolved = resolve newValue (val b);
          w1 = (case setItem_JSON rt w (key b) resolved of
                  Inl e \<Rightarrow> w
                | Inr w' \<Rightarrow> w');
          w2 = clear_if_set (saveTimeoutRef b) w1;
          armed = setTimeout (key b, resolved) (debounce b) w2
      in (b\<lparr>val := resolved, saveTimeoutRef := Some (fst armed)\<rparr>, snd armed))"

text \<open>The callback of the timer (lines 93 to 102). A throwing token lookup rejects the
  callback's promise and nothing is sent.\<close>

definition fire :: "'o timer \<Rightarrow> 'o world \<Rightarrow> 'o world" where
  "fire t w =
     (case getItem w ''token'' of
        Inl e \<Rightarrow> w
      | Inr token \<Rightarrow>
          if \<not> truthy_string token then w
          else w\<lparr>network := network w @ [SaveUserData (cb_key t) (cb_resolved t)]\<rparr>)"

text \<open>Time passes: the timers that have become due run, earliest first.\<close>

definition advance :: "nat \<Rightarrow> 'o world \<Rightarrow> 'o world" where
  "advance d w =
     (let now = clock w + d;
          ready = sort_key due (filter (\<lambda>t. due t \<le> now) (timers w))
      in fold fire ready
           (w\<lparr>clock := now, timers := filter (\<lambda>t. \<not> due t \<le> now) (timers w)\<rparr>))"

text \<open>Teardown: the cleanups of the two effects (lines 69 to 71 and 110 to 114). The
  mount effect returns its cleanup only when it has started a refresh, so without
  \<^verbatim>\<open>syncOnMount\<close> the liveness flag stays as it is.\<close>

definition unmount :: "'o binding \<times> 'o world \<Rightarrow> 'o binding \<times> 'o world" where
  "unmount s =
     (let b = (if sync (fst s) then (fst s)\<lparr>mountedRef := False\<rparr> else fst s)
      in (b, clear_if_set (saveTimeoutRef b) (snd s)))"

text \<open>What can happen to a binding, and a run of such events.\<close>

datatype 'o event = Mount | SetValue "'o action" | Advance nat | Reply "'o reply" | Unmount

fun step :: "'o runtime \<Rightarrow> 'o event \<Rightarrow> 'o binding \<times> 'o world \<Rightarrow> 'o binding \<times> 'o world" where
  "step rt Mount s = snd (mount s)"
| "step rt (SetValue a) s = setValueAndSync rt a s"
| "step rt (Advance d) s = (fst s, advance d (snd s))"
| "step rt (Reply r) s = snd (loadFromServer_resume rt r s)"
| "step rt Unmount s = unmount s"

definition run ::
  "'o runtime \<Rightarrow> 'o event list \<Rightarrow> 'o binding \<times> 'o world \<Rightarrow> 'o binding \<times> 'o world" where
  "run rt es s = fold (step rt) es s"

text \<open>A Session Token is present when the lookup of \<^verbatim>\<open>token\<close> gives a non-empty string.\<close>

definition has_token :: "'o world \<Rightarrow> bool" where
  "has_token w = (case getItem w ''token'' of Inl e \<Rightarrow> False | Inr token \<Rightarrow> truthy_string token)"

text \<open>No Session Token before any event of a run, nor after its last.\<close>

fun token_free :: "'o runtime \<Rightarrow> 'o event list \<Rightarrow> 'o binding \<times> 'o world \<Rightarrow> bool" where
  "token_free rt [] s = (\<not> has_token (snd s))"
| "token_free rt (e # es) s = (\<not> has_token (snd s) \<and> token_free rt es (step rt e s))"

text \<open>A burst of further calls of the setter, each after a pause.\<close>

fun burst ::
  "'o runtime \<Rightarrow> (nat \<times> 'o action) list \<Rightarrow> 'o binding \<times> 'o world \<Rightarrow> 'o binding \<times> 'o world" where
  "burst rt [] s = s"
| "burst rt (c # cs) s =
     burst rt cs (setValueAndSync rt (snd c) (fst s, advance (fst c) (snd s)))"

text \<open>Every pending timer of the world is the one the binding's ref holds.\<close>

definition owns_timers :: "'o binding \<times> 'o world \<Rightarrow> bool" where
  "owns_timers s = list_all (\<lambda>t. saveTimeoutRef (fst s) = Some (handle t) \<and> 0 < handle t) (timers (snd s))"

text \<open>Events that do not call the setter or mount again.\<close>

fun quiet :: "'o event \<Rightarrow> bool" where
  "quiet (Advance d) = True"
| "quiet (Reply r) = True"
| "quiet Unmount = True"
| "quiet e = False"

section \<open>The Settings Mirror: \<^verbatim>\<open>useSyncedSettings\<close>\<close>

text \<open>The initialiser of its \<^verbatim>\<open>useState\<close> (lines 125 to 141).\<close>

definition settings_initial_value :: "string \<Rightarrow> 'o js \<Rightarrow> 'o world \<Rightarrow> 'o js" where
  "settings_initial_value settingsKey initialValue w =
     (if \<not> window_defined w then initialValue
      else case getItem w settingsKey of
             Inl e \<Rightarrow> initialValue
           | Inr None \<Rightarrow> initialValue
           | Inr (Some saved) \<Rightarrow>
               if saved \<noteq> [] then
                 (if saved = ''true'' then JSBool True
                  else if saved = ''false'' then JSBool False
                  else JSString saved)
               else initialValue)"

text \<open>\<^verbatim>\<open>localStorage.setItem(k, String(x))\<close>: the argument is evaluated first and can
  throw.\<close>

definition setItem_String :: "'o runtime \<Rightarrow> 'o world \<Rightarrow> string \<Rightarrow> 'o js \<Rightarrow> js_error + 'o world" where
  "setItem_String rt w k x =
     (case js_String rt x of
        Inl e \<Rightarrow> Inl e
      | Inr text \<Rightarrow> setItem w k text)"

text \<open>Its \<^verbatim>\<open>setValueAndSync\<close> (lines 143 to 159) on the current value and the world. The
  token lookup stands outside the \<^verbatim>\<open>try\<close>: the first component is the error it throws.\<close>

definition settings_setValueAndSync ::
  "'o runtime \<Rightarrow> string \<Rightarrow> 'o js \<Rightarrow> 'o js \<times> 'o world \<Rightarrow> js_error option \<times> 'o js \<times> 'o world" where
  "settings_setValueAndSync rt settingsKey newValue s =
     (let w = snd s;
          w1 = (case setItem_String rt w settingsKey newValue of
                  Inl e \<Rightarrow> w
                | Inr w' \<Rightarrow> w')
      in case getItem w1 ''token'' of
           Inl e \<Rightarrow> (Some e, newValue, w1)
         | Inr token \<Rightarrow>
             if truthy_string token
             then (None, newValue,
                   w1\<lparr>network := network w1 @ [SaveUserSettings settingsKey newValue]\<rparr>)
             else (None, newValue, w1))"

section \<open>The data endpoint\<close>

text \<open>Modelled from the spec: the table behind \<^verbatim>\<open>prisma.userData\<close> is not among the
  sources. A Remote Record maps a user and a key to a value and an update timestamp, one
  record per user and key; \<open>row_id\<close> is the \<^verbatim>\<open>id\<close> the handlers return.\<close>

record user_data =
  row_id :: nat
  row_userId :: string
  row_key :: string
  row_value :: string
  row_updatedAt :: nat

record database =
  rows :: "user_data list"
  next_id :: nat

text \<open>A request as the handlers read it: the user \<^verbatim>\<open>getUserIdFromRequest\<close> finds (that
  function is not among the sources), the \<^verbatim>\<open>key\<close> of the query string, the text of the
  body, and the clock that \<^verbatim>\<open>new Date()\<close> reads while the request is served.\<close>

record request =
  auth_user :: "string option"
  query_key :: "string option"
  body :: string
  now :: nat

text \<open>The object literals that the handlers answer with: \<^verbatim>\<open>{ error }\<close>,
  \<^verbatim>\<open>{ value }\<close>, the \<^verbatim>\<open>result\<close> object of a \<^verbatim>\<open>GET\<close> without key (its own
  properties), \<^verbatim>\<open>{ success: true, id }\<close>, \<^verbatim>\<open>{ success: true, saved }\<close>,
  \<^verbatim>\<open>{ success: true }\<close> and \<^verbatim>\<open>{}\<close>.\<close>

datatype 'o payload =
    ErrorBody string
  | ValueBody "'o js"
  | ResultBody "string \<rightharpoonup> 'o js"
  | SavedBody nat
  | SavedManyBody nat
  | SuccessBody
  | EmptyBody

record 'o response =
  status :: nat
  payload :: "'o payload"
  headers :: "(string \<times> string) list"

definition corsHeaders :: "(string \<times> string) list" where
  "corsHeaders =
     [(''Access-Control-Allow-Origin'', ''*''),
      (''Access-Control-Allow-Methods'', ''GET, POST, PUT, DELETE, OPTIONS''),
      (''Access-Control-Allow-Headers'', ''Content-Type, Authorization'')]"

text \<open>\<^verbatim>\<open>NextResponse.json(x, { status, headers: corsHeaders })\<close>.\<close>

definition respond :: "nat \<Rightarrow> 'o payload \<Rightarrow> 'o response" where
  "respond st x = \<lparr>status = st, payload = x, headers = corsHeaders\<rparr>"

text \<open>The messages of the source are Russian; each stands here as the bytes of its UTF-8
  form: \<^verbatim>\<open>Ne avtorizovan\<close> (not authorised), \<^verbatim>\<open>Klyuch obyazatelen\<close> (a key is required),
  \<^verbatim>\<open>Oshibka polucheniya dannykh\<close> (the data could not be read) and
  \<^verbatim>\<open>Oshibka sokhraneniya dannykh\<close> (the data could not be saved).\<close>

definition not_authorized_text :: string where
  "not_authorized_text =
     [CHR 0xD0, CHR 0x9D, CHR 0xD0, CHR 0xB5, CHR '' '', CHR 0xD0, CHR 0xB0, CHR 0xD0,
      CHR 0xB2, CHR 0xD1, CHR 0x82, CHR 0xD0, CHR 0xBE, CHR 0xD1, CHR 0x80, CHR 0xD0, CHR 0xB8,
      CHR 0xD0, CHR 0xB7, CHR 0xD0, CHR 0xBE, CHR 0xD0, CHR 0xB2, CHR 0xD0, CHR 0xB0, CHR 0xD0,
      CHR 0xBD]"

definition key_required_text :: string where
  "key_required_text =
     [CHR 0xD0, CHR 0x9A, CHR 0xD0, CHR 0xBB, CHR 0xD1, CHR 0x8E, CHR 0xD1, CHR 0x87,
      CHR '' '', CHR 0xD0, CHR 0xBE, CHR 0xD0, CHR 0xB1, CHR 0xD1, CHR 0x8F, CHR 0xD0,
      CHR 0xB7, CHR 0xD0, CHR 0xB0, CHR 0xD1, CHR 0x82, CHR 0xD0, CHR 0xB5, CHR 0xD0, CHR 0xBB,
      CHR 0xD0, CHR 0xB5, CHR 0xD0, CHR 0xBD]"

definition load_failed_text :: string where
  "load_failed_text =
     [CHR 0xD0, CHR 0x9E, CHR 0xD1, CHR 0x88, CHR 0xD0, CHR 0xB8, CHR 0xD0, CHR 0xB1, CHR 0xD0,
      CHR 0xBA, CHR 0xD0, CHR 0xB0, CHR '' '', CHR 0xD0, CHR 0xBF, CHR 0xD0, CHR 0xBE,
      CHR 0xD0, CHR 0xBB, CHR 0xD1, CHR 0x83, CHR 0xD1, CHR 0x87, CHR 0xD0, CHR 0xB5, CHR 0xD0,
      CHR 0xBD, CHR 0xD0, CHR 0xB8, CHR 0xD1, CHR 0x8F, CHR '' '', CHR 0xD0, CHR 0xB4,
      CHR 0xD0, CHR 0xB0, CHR 0xD0, CHR 0xBD, CHR 0xD0, CHR 0xBD, CHR 0xD1, CHR 0x8B, CHR 0xD1,
      CHR 0x85]"

definition save_failed_text :: string where
  "save_failed_text =
     [CHR 0xD0, CHR 0x9E, CHR 0xD1, CHR 0x88, CHR 0xD0, CHR 0xB8, CHR 0xD0, CHR 0xB1, CHR 0xD0,
      CHR 0xBA, CHR 0xD0, CHR 0xB0, CHR '' '', CHR 0xD1, CHR 0x81, CHR 0xD0, CHR 0xBE,
      CHR 0xD1, CHR 0x85, CHR 0xD1, CHR 0x80, CHR 0xD0, CHR 0xB0, CHR 0xD0, CHR 0xBD, CHR 0xD0,
      CHR 0xB5, CHR 0xD0, CHR 0xBD, CHR 0xD0, CHR 0xB8, CHR 0xD1, CHR 0x8F, CHR '' '',
      CHR 0xD0, CHR 0xB4, CHR 0xD0, CHR 0xB0, CHR 0xD0, CHR 0xBD, CHR 0xD0, CHR 0xBD, CHR 0xD1,
      CHR 0x8B, CHR 0xD1, CHR 0x85]"

definition unauthorized :: "'o response" where
  "unauthorized = respond 401 (ErrorBody not_authorized_text)"

definition key_required :: "'o response" where
  "key_required = respond 400 (ErrorBody key_required_text)"

text \<open>Modelled from the spec: \<^verbatim>\<open>findUnique\<close>, \<^verbatim>\<open>findMany\<close>, \<^verbatim>\<open>upsert\<close> and
  \<^verbatim>\<open>deleteMany\<close> of the table. An upsert updates the record of the user and key when
  there is one and creates it otherwise, with a fresh id and the time of creation as its
  update timestamp.\<close>

definition matches :: "string \<Rightarrow> string \<Rightarrow> user_data \<Rightarrow> bool" where
  "matches userId k r = (row_userId r = userId \<and> row_key r = k)"

definition findUnique :: "database \<Rightarrow> string \<Rightarrow> string \<Rightarrow> user_data option" where
  "findUnique db userId k = find (matches userId k) (rows db)"

definition findMany :: "database \<Rightarrow> string \<Rightarrow> user_data list" where
  "findMany db userId = filter (\<lambda>r. row_userId r = userId) (rows db)"

definition upsert :: "database \<Rightarrow> string \<Rightarrow> string \<Rightarrow> string \<Rightarrow> nat \<Rightarrow> user_data \<times> database" where
  "upsert db userId k v t =
     (case findUnique db userId k of
        Some r \<Rightarrow>
          (r\<lparr>row_value := v, row_updatedAt := t\<rparr>,
           db\<lparr>rows := map (\<lambda>x. if matches userId k x
                                then x\<lparr>row_value := v, row_updatedAt := t\<rparr> else x) (rows db)\<rparr>)
      | None \<Rightarrow>
          (let r = \<lparr>row_id = next_id db, row_userId = userId, row_key = k, row_value = v,
                    row_updatedAt = t\<rparr>
           in (r, db\<lparr>rows := rows db @ [r], next_id := Suc (next_id db)\<rparr>)))"

definition deleteMany :: "database \<Rightarrow> string \<Rightarrow> string \<Rightarrow> database" where
  "deleteMany db userId k = db\<lparr>rows := filter (\<lambda>r. \<not> matches userId k r) (rows db)\<rparr>"

text \<open>\<^verbatim>\<open>typeof value === 'string' ? value : JSON.stringify(value)\<close>: a string, or
  \<^verbatim>\<open>undefined\<close>, or a throw.\<close>

definition valueStr :: "'o runtime \<Rightarrow> 'o js \<Rightarrow> js_error + string option" where
  "valueStr rt v = (case v of JSString s \<Rightarrow> Inr (Some s) | _ \<Rightarrow> JSON_stringify rt v)"

text \<open>The stored string as \<^verbatim>\<open>GET\<close> returns it (lines 40 to 44 and 54 to 58): decoded
  when it parses, raw otherwise.\<close>

definition decode :: "'o runtime \<Rightarrow> string \<Rightarrow> 'o js" where
  "decode rt s = (case JSON_parse rt s of Inr v \<Rightarrow> v | Inl e \<Rightarrow> JSString s)"

subsection \<open>\<^verbatim>\<open>GET\<close> (lines 17 to 70)\<close>

text \<open>\<^verbatim>\<open>result[item.key] = x\<close> on the object literal \<^verbatim>\<open>result\<close>: the name
  \<^verbatim>\<open>__proto__\<close> reaches the setter of the prototype and gives the object no property of
  its own.\<close>

definition assign :: "(string \<rightharpoonup> 'o js) \<Rightarrow> string \<Rightarrow> 'o js \<Rightarrow> (string \<rightharpoonup> 'o js)" where
  "assign result k x = (if k = ''__proto__'' then result else result(k \<mapsto> x))"

definition GET_try :: "'o runtime \<Rightarrow> request \<Rightarrow> database \<Rightarrow> js_error + 'o response" where
  "GET_try rt req db =
     (case auth_user req of
        None \<Rightarrow> Inr unauthorized
      | Some userId \<Rightarrow>
          if userId = [] then Inr unauthorized
          else if truthy_string (query_key req) then
            (case findUnique db userId (the (query_key req)) of
               None \<Rightarrow> Inr (respond 200 (ValueBody JSNull))
             | Some data \<Rightarrow> Inr (respond 200 (ValueBody (decode rt (row_value data)))))
          else
            Inr (respond 200
                  (ResultBody
                     (foldl (\<lambda>result item. assign result (row_key item) (decode rt (row_value item)))
                        Map.empty (findMany db userId)))))"

definition GET :: "'o runtime \<Rightarrow> request \<Rightarrow> database \<Rightarrow> 'o response" where
  "GET rt req db =
     (case GET_try rt req db of
        Inl e \<Rightarrow> respond 500 (ErrorBody load_failed_text)
      | Inr r \<Rightarrow> r)"

subsection \<open>\<^verbatim>\<open>POST\<close> (lines 73 to 114)\<close>

text \<open>\<^verbatim>\<open>request.json()\<close> throws on a body that is not JSON, and the pattern of line 82
  throws on \<^verbatim>\<open>null\<close>. The table takes a string key and a string value: the client
  refuses any other argument before it writes. Every throw happens before the write, so
  the \<^verbatim>\<open>catch\<close> finds the table as the request found it.\<close>

definition POST_try ::
  "'o runtime \<Rightarrow> request \<Rightarrow> database \<Rightarrow> js_error + 'o response \<times> database" where
  "POST_try rt req db =
     (case auth_user req of
        None \<Rightarrow> Inr (unauthorized, db)
      | Some userId \<Rightarrow>
          if userId = [] then Inr (unauthorized, db)
          else
            (case JSON_parse rt (body req) of
               Inl e \<Rightarrow> Inl e
             | Inr b \<Rightarrow>
                 (case (js_get rt b ''key'', js_get rt b ''value'') of
                    (Inr k, Inr v) \<Rightarrow>
                      if \<not> truthy rt k then Inr (key_required, db)
                      else
                        (case valueStr rt v of
                           Inl e \<Rightarrow> Inl e
                         | Inr text \<Rightarrow>
                             (case (k, text) of
                                (JSString ks, Some vs) \<Rightarrow>
                                  (case upsert db userId ks vs (now req) of
                                     (data, db') \<Rightarrow>
                                       Inr (respond 200 (SavedBody (row_id data)), db'))
                              | _ \<Rightarrow> Inl PrismaValidationError))
                  | _ \<Rightarrow> Inl TypeError)))"

definition POST :: "'o runtime \<Rightarrow> request \<Rightarrow> database \<Rightarrow> 'o response \<times> database" where
  "POST rt req db =
     (case POST_try rt req db of
        Inl e \<Rightarrow> (respond 500 (ErrorBody save_failed_text), db)
      | Inr r \<Rightarrow> r)"

subsection \<open>\<^verbatim>\<open>PUT\<close> (lines 117 to 157)\<close>

text \<open>The loop of lines 129 to 147 over the entries that are left: it stops at the first
  entry whose value has no text or whose text the table refuses, and what it has written
  by then stays written. The result is the error thrown, if any, and the table.\<close>

fun put_entries ::
  "'o runtime \<Rightarrow> string \<Rightarrow> nat \<Rightarrow> (string \<times> 'o js) list \<Rightarrow> database \<Rightarrow> js_error option \<times> database" where
  "put_entries rt userId t [] db = (None, db)"
| "put_entries rt userId t (entry # entries) db =
     (case valueStr rt (snd entry) of
        Inl e \<Rightarrow> (Some e, db)
      | Inr None \<Rightarrow> (Some PrismaValidationError, db)
      | Inr (Some vs) \<Rightarrow>
          put_entries rt userId t entries (snd (upsert db userId (fst entry) vs t)))"

definition PUT_try ::
  "'o runtime \<Rightarrow> request \<Rightarrow> database \<Rightarrow> (js_error + 'o response) \<times> database" where
  "PUT_try rt req db =
     (case auth_user req of
        None \<Rightarrow> (Inr unauthorized, db)
      | Some userId \<Rightarrow>
          if userId = [] then (Inr unauthorized, db)
          else
            (case JSON_parse rt (body req) of
               Inl e \<Rightarrow> (Inl e, db)
             | Inr b \<Rightarrow>
                 (case Object_entries rt b of
                    Inl e \<Rightarrow> (Inl e, db)
                  | Inr entries \<Rightarrow>
                      (case put_entries rt userId (now req) entries db of
                         (Some e, db') \<Rightarrow> (Inl e, db')
                       | (None, db') \<Rightarrow>
                           (Inr (respond 200 (SavedManyBody (length entries))), db')))))"

definition PUT :: "'o runtime \<Rightarrow> request \<Rightarrow> database \<Rightarrow> 'o response \<times> database" where
  "PUT rt req db =
     (case PUT_try rt req db of
        (Inl e, db') \<Rightarrow> (respond 500 (ErrorBody save_failed_text), db')
      | (Inr r, db') \<Rightarrow> (r, db'))"

subsection \<open>\<^verbatim>\<open>DELETE\<close> (lines 160 to 187) and \<^verbatim>\<open>OPTIONS\<close> (lines 12 to 14)\<close>

definition DELETE :: "request \<Rightarrow> database \<Rightarrow> 'o response \<times> database" where
  "DELETE req db =
     (case auth_user req of
        None \<Rightarrow> (unauthorized, db)
      | Some userId \<Rightarrow>
          if userId = [] then (unauthorized, db)
          else if \<not> truthy_string (query_key req) then (key_required, db)
          else (respond 200 SuccessBody, deleteMany db userId (the (query_key req))))"

definition OPTIONS :: "'o response" where
  "OPTIONS = respond 200 EmptyBody"

section \<open>An engine for the examples\<close>

text \<open>
  The examples below need an engine to run on. This one knows the values of JSON whose
  numbers are integers and whose strings are lists of 8-bit characters, and it reads and
  prints the texts of such values only: a number with a fraction or an exponent and an
  escape above \<^verbatim>\<open>\u00ff\<close> are syntax errors to it. The examples stay within the texts
  and values on which it answers as a JavaScript engine does. No property below depends on
  it: each holds for every engine, and this one is an instance.
\<close>

datatype json = JNull | JBool bool | JNum int | JStr string | JArr "json list"
  | JObj "(string \<times> json) list"

subsection \<open>Printing\<close>

definition digit_char :: "nat \<Rightarrow> char" where
  "digit_char d = char_of (48 + d)"

fun show_nat :: "nat \<Rightarrow> string" where
  "show_nat n =
     (if n < 10 then [digit_char n] else show_nat (n div 10) @ [digit_char (n mod 10)])"

declare show_nat.simps [simp del]

definition show_int :: "int \<Rightarrow> string" where
  "show_int i = (if i < 0 then CHR ''-'' # show_nat (nat (- i)) else show_nat (nat i))"

definition hex_char :: "nat \<Rightarrow> char" where
  "hex_char d = (if d < 10 then char_of (48 + d) else char_of (87 + d))"

text \<open>
  The escapes of a string: the quote, the backslash, the five short escapes, and
  \<^verbatim>\<open>\u00XX\<close> (lower-case hex) for the other control characters.
\<close>

definition escape_char :: "char \<Rightarrow> string" where
  "escape_char c =
     (if c = CHR 0x22 then [CHR 0x5C, CHR 0x22]
      else if c = CHR 0x5C then [CHR 0x5C, CHR 0x5C]
      else if c = CHR 0x08 then [CHR 0x5C, CHR ''b'']
      else if c = CHR 0x0C then [CHR 0x5C, CHR ''f'']
      else if c = CHR 0x0A then [CHR 0x5C, CHR ''n'']
      else if c = CHR 0x0D then [CHR 0x5C, CHR ''r'']
      else if c = CHR 0x09 then [CHR 0x5C, CHR ''t'']
      else if (of_char c :: nat) < 32
        then [CHR 0x5C, CHR ''u'', CHR ''0'', CHR ''0'',
              hex_char (of_char c div 16), hex_char (of_char c mod 16)]
      else [c])"

definition quote :: "string \<Rightarrow> string" where
  "quote s = CHR 0x22 # concat (map escape_char s) @ [CHR 0x22]"

fun join :: "string \<Rightarrow> string list \<Rightarrow> string" where
  "join sep [] = []"
| "join sep [x] = x"
| "join sep (x # y # ys) = x @ sep @ join sep (y # ys)"

fun print_json :: "json \<Rightarrow> string" where
  "print_json JNull = ''null''"
| "print_json (JBool b) = (if b then ''true'' else ''false'')"
| "print_json (JNum i) = show_int i"
| "print_json (JStr s) = quote s"
| "print_json (JArr xs) = ''['' @ join '','' (map print_json xs) @ '']''"
| "print_json (JObj kvs) =
     ''{'' @ join '','' (map (\<lambda>(k, v). quote k @ '':'' @ print_json v) kvs) @ ''}''"

subsection \<open>Reading\<close>

definition is_ws :: "char \<Rightarrow> bool" where
  "is_ws c = (c = CHR 0x20 \<or> c = CHR 0x09 \<or> c = CHR 0x0A \<or> c = CHR 0x0D)"

definition skip_ws :: "string \<Rightarrow> string" where
  "skip_ws s = dropWhile is_ws s"

definition is_digit :: "char \<Rightarrow> bool" where
  "is_digit c = (48 \<le> (of_char c :: nat) \<and> (of_char c :: nat) \<le> 57)"

definition digit_val :: "char \<Rightarrow> nat" where
  "digit_val c = of_char c - 48"

definition read_nat :: "string \<Rightarrow> nat" where
  "read_nat ds = foldl (\<lambda>a c. 10 * a + digit_val c) 0 ds"

definition hex_val :: "char \<Rightarrow> nat option" where
  "hex_val c =
     (let n = (of_char c :: nat) in
      if 48 \<le> n \<and> n \<le> 57 then Some (n - 48)
      else if 97 \<le> n \<and> n \<le> 102 then Some (n - 87)
      else if 65 \<le> n \<and> n \<le> 70 then Some (n - 55)
      else None)"

definition unescape :: "char \<Rightarrow> char option" where
  "unescape e =
     (if e = CHR 0x22 then Some (CHR 0x22)
      else if e = CHR 0x5C then Some (CHR 0x5C)
      else if e = CHR ''/'' then Some (CHR ''/'')
      else if e = CHR ''b'' then Some (CHR 0x08)
      else if e = CHR ''f'' then Some (CHR 0x0C)
      else if e = CHR ''n'' then Some (CHR 0x0A)
      else if e = CHR ''r'' then Some (CHR 0x0D)
      else if e = CHR ''t'' then Some (CHR 0x09)
      else None)"

definition hex4 :: "char \<Rightarrow> char \<Rightarrow> char \<Rightarrow> char \<Rightarrow> nat option" where
  "hex4 a b c d =
     (case (hex_val a, hex_val b, hex_val c, hex_val d) of
        (Some x, Some y, Some z, Some w) \<Rightarrow> Some (4096 * x + 256 * y + 16 * z + w)
      | _ \<Rightarrow> None)"

definition cons_result :: "'a \<Rightarrow> ('a list \<times> string) option \<Rightarrow> ('a list \<times> string) option" where
  "cons_result x r = (case r of None \<Rightarrow> None | Some (xs, rest) \<Rightarrow> Some (x # xs, rest))"

text \<open>
  The characters of a string literal after its opening quote, up to the closing one. A raw
  control character is a syntax error; a \<^verbatim>\<open>\uXXXX\<close> escape above \<open>0xFF\<close> has no 8-bit
  character and is refused.
\<close>

fun parse_chars :: "string \<Rightarrow> (string \<times> string) option" where
  "parse_chars [] = None"
| "parse_chars (c # cs) =
     (if c = CHR 0x22 then Some ([], cs)
      else if c = CHR 0x5C then
        (case cs of
           [] \<Rightarrow> None
         | e # cs' \<Rightarrow>
             if e = CHR ''u'' then
               (case cs' of
                  h1 # h2 # h3 # h4 # cs'' \<Rightarrow>
                    (case hex4 h1 h2 h3 h4 of
                       None \<Rightarrow> None
                     | Some n \<Rightarrow>
                         if n < 256 then cons_result (char_of n) (parse_chars cs'') else None)
                | _ \<Rightarrow> None)
             else
               (case unescape e of
                  None \<Rightarrow> None
                | Some x \<Rightarrow> cons_result x (parse_chars cs')))
      else if (of_char c :: nat) < 32 then None
      else cons_result c (parse_chars cs))"

text \<open>An integer literal: an optional minus, then \<^verbatim>\<open>0\<close> or digits without a leading zero.
  What follows the digits is left to the caller, so a literal with a fraction or an exponent
  is not read as a number.\<close>

definition parse_number :: "string \<Rightarrow> (json \<times> string) option" where
  "parse_number s =
     (let neg = (s \<noteq> [] \<and> hd s = CHR ''-'');
          s1 = (if neg then tl s else s);
          ds = takeWhile is_digit s1;
          rest = dropWhile is_digit s1
      in if ds = [] then None
         else if hd ds = CHR ''0'' \<and> 1 < length ds then None
         else Some (JNum (if neg then - int (read_nat ds) else int (read_nat ds)), rest))"

text \<open>A repeated key keeps its first position and takes the later value.\<close>

fun object_put :: "string \<Rightarrow> json \<Rightarrow> (string \<times> json) list \<Rightarrow> (string \<times> json) list" where
  "object_put k v [] = [(k, v)]"
| "object_put k v ((k', v') # kvs) =
     (if k' = k then (k, v) # kvs else (k', v') # object_put k v kvs)"

definition object_of :: "(string \<times> json) list \<Rightarrow> (string \<times> json) list" where
  "object_of members = foldl (\<lambda>obj (k, v). object_put k v obj) [] members"

text \<open>
  Recursive descent over the text. \<open>parse_elements\<close> reads the elements of an array after
  its bracket, \<open>parse_members\<close> the members of an object after its brace. The two length
  tests make the recursion well-founded on the length of the text.
\<close>

function parse_value :: "string \<Rightarrow> (json \<times> string) option"
  and parse_elements :: "string \<Rightarrow> (json list \<times> string) option"
  and parse_members :: "string \<Rightarrow> ((string \<times> json) list \<times> string) option"
where
  "parse_value s =
     (case s of
        [] \<Rightarrow> None
      | c # r \<Rightarrow>
          if c = CHR 0x22 then
            (case parse_chars r of None \<Rightarrow> None | Some (str, rest) \<Rightarrow> Some (JStr str, rest))
          else if c = CHR ''['' then
            (case skip_ws r of
               [] \<Rightarrow> None
             | d # r' \<Rightarrow>
                 if d = CHR '']'' then Some (JArr [], r')
                 else (case parse_elements (d # r') of
                         None \<Rightarrow> None
                       | Some (xs, rest) \<Rightarrow> Some (JArr xs, rest)))
          else if c = CHR ''{'' then
            (case skip_ws r of
               [] \<Rightarrow> None
             | d # r' \<Rightarrow>
                 if d = CHR ''}'' then Some (JObj [], r')
                 else (case parse_members (d # r') of
                         None \<Rightarrow> None
                       | Some (kvs, rest) \<Rightarrow> Some (JObj (object_of kvs), rest)))
          else if take 4 s = ''true'' then Some (JBool True, drop 4 s)
          else if take 5 s = ''false'' then Some (JBool False, drop 5 s)
          else if take 4 s = ''null'' then Some (JNull, drop 4 s)
          else parse_number s)"
| "parse_elements s =
     (case parse_value s of
        None \<Rightarrow> None
      | Some (v, r) \<Rightarrow>
          (case skip_ws r of
             [] \<Rightarrow> None
           | c # r' \<Rightarrow>
               if c = CHR '','' then
                 (if length (skip_ws r') < length s
                  then cons_result v (parse_elements (skip_ws r')) else None)
               else if c = CHR '']'' then Some ([v], r')
               else None))"
| "parse_members s =
     (case s of
        [] \<Rightarrow> None
      | c # r \<Rightarrow>
          if c \<noteq> CHR 0x22 then None
          else
            (case parse_chars r of
               None \<Rightarrow> None
             | Some (k, r1) \<Rightarrow>
                 (case skip_ws r1 of
                    [] \<Rightarrow> None
                  | c1 # r2 \<Rightarrow>
                      if c1 \<noteq> CHR '':'' then None
                      else if length (skip_ws r2) < length s then
                        (case parse_value (skip_ws r2) of
                           None \<Rightarrow> None
                         | Some (v, r3) \<Rightarrow>
                             (case skip_ws r3 of
                                [] \<Rightarrow> None
                              | c3 # r4 \<Rightarrow>
                                  if c3 = CHR '','' then
                                    (if length (skip_ws r4) < length s
                                     then cons_result (k, v) (parse_members (skip_ws r4))
                                     else None)
                                  else if c3 = CHR ''}'' then Some ([(k, v)], r4)
                                  else None))
                      else None)))"
  by pat_completeness auto
termination
proof (relation "measure (\<lambda>x. case x of
          Inl s \<Rightarrow> 2 * length s
        | Inr (Inl s) \<Rightarrow> 2 * length s + 1
        | Inr (Inr s) \<Rightarrow> 2 * length s + 1)", goal_cases)
  case 1
  show ?case by simp
next
  case (2 s c r d r')
  have "length (dropWhile is_ws r) \<le> length r" by (rule length_dropWhile_le)
  with 2 show ?case by (simp add: skip_ws_def)
next
  case (3 s c r d r')
  have "length (dropWhile is_ws r) \<le> length r" by (rule length_dropWhile_le)
  with 3 show ?case by (simp add: skip_ws_def)
qed simp_all

declare parse_value.simps [simp del] parse_elements.simps [simp del]
  parse_members.simps [simp del]

definition read_json :: "string \<Rightarrow> js_error + json" where
  "read_json s =
     (case parse_value (skip_ws s) of
        None \<Rightarrow> Inl SyntaxError
      | Some (v, rest) \<Rightarrow> if skip_ws rest = [] then Inr v else Inl SyntaxError)"

subsection \<open>The engine\<close>

text \<open>The text of \<^verbatim>\<open>String(x)\<close>: an array joins its elements with commas, \<^verbatim>\<open>null\<close>
  elements as the empty string; an object literal is \<^verbatim>\<open>[object Object]\<close>.\<close>

fun show_json :: "json \<Rightarrow> string" where
  "show_json JNull = ''null''"
| "show_json (JBool b) = (if b then ''true'' else ''false'')"
| "show_json (JNum i) = show_int i"
| "show_json (JStr s) = s"
| "show_json (JArr xs) = join '','' (map (\<lambda>x. if x = JNull then [] else show_json x) xs)"
| "show_json (JObj kvs) = ''[object Object]''"

text \<open>A value of JSON as a value of the language, and back; \<^verbatim>\<open>undefined\<close> is no value
  of JSON.\<close>

definition js_of :: "json \<Rightarrow> json js" where
  "js_of x =
     (case x of
        JNull \<Rightarrow> JSNull
      | JBool b \<Rightarrow> JSBool b
      | JStr s \<Rightarrow> JSString s
      | _ \<Rightarrow> JSOther x)"

definition json_of :: "json js \<Rightarrow> json option" where
  "json_of v =
     (case v of
        JSUndefined \<Rightarrow> None
      | JSNull \<Rightarrow> Some JNull
      | JSBool b \<Rightarrow> Some (JBool b)
      | JSString s \<Rightarrow> Some (JStr s)
      | JSOther x \<Rightarrow> Some x)"

definition example :: "json runtime" where
  "example =
     \<lparr>JSON_parse = (\<lambda>s. case read_json s of Inl e \<Rightarrow> Inl e | Inr x \<Rightarrow> Inr (js_of x)),
      JSON_stringify = (\<lambda>v. Inr (map_option print_json (json_of v))),
      String_other = (\<lambda>x. Inr (show_json x)),
      truthy_other = (\<lambda>x. case x of JNum n \<Rightarrow> n \<noteq> 0 | _ \<Rightarrow> True),
      get_other = (\<lambda>x name. case x of
                     JObj kvs \<Rightarrow> (case map_of kvs name of None \<Rightarrow> JSUndefined | Some y \<Rightarrow> js_of y)
                   | _ \<Rightarrow> JSUndefined),
      entries_other = (\<lambda>x. case x of
                         JObj kvs \<Rightarrow> map (\<lambda>kv. (fst kv, js_of (snd kv))) kvs
                       | JArr xs \<Rightarrow> zip (map show_nat [0..<length xs]) (map js_of xs)
                       | _ \<Rightarrow> []),
      entries_string = (\<lambda>s. zip (map show_nat [0..<length s]) (map (\<lambda>c. JSString [c]) s))\<rparr>"

section \<open>Notions of the statements\<close>

text \<open>\<^verbatim>\<open>typeof x === 'string'\<close> and \<^verbatim>\<open>typeof x === 'boolean'\<close>.\<close>

definition is_string :: "'o js \<Rightarrow> bool" where
  "is_string x = (case x of JSString s \<Rightarrow> True | _ \<Rightarrow> False)"

definition is_boolean :: "'o js \<Rightarrow> bool" where
  "is_boolean x = (case x of JSBool b \<Rightarrow> True | _ \<Rightarrow> False)"

text \<open>A browser tab at time zero with the given Local Cache, which refuses no write; no
  timer is pending and no request has been sent. In a \<open>full_browser\<close> the cache refuses
  every write.\<close>

definition browser :: "(string \<rightharpoonup> string) \<Rightarrow> 'o world" where
  "browser m =
     \<lparr>window_defined = True, localStorage = Storage m (\<lambda>k v. False), clock = 0,
      timers = [], timer_count = 0, network = []\<rparr>"

definition full_browser :: "(string \<rightharpoonup> string) \<Rightarrow> 'o world" where
  "full_browser m =
     \<lparr>window_defined = True, localStorage = Storage m (\<lambda>k v. True), clock = 0,
      timers = [], timer_count = 0, network = []\<rparr>"


text \<open>Exactly one timer is pending: the one the binding's ref holds, due one debounce
  interval after the present, carrying the binding's key and current value.\<close>

definition armed :: "'o binding \<times> 'o world \<Rightarrow> bool" where
  "armed s =
     (case timers (snd s) of
        [t] \<Rightarrow> saveTimeoutRef (fst s) = Some (handle t) \<and> 0 < handle t
               \<and> due t = clock (snd s) + debounce (fst s)
               \<and> cb_key t = key (fst s) \<and> cb_resolved t = val (fst s)
      | _ \<Rightarrow> False)"

text \<open>An updater for the examples: add one to a number.\<close>

definition increment :: "json js \<Rightarrow> json js" where
  "increment v = (case v of JSOther (JNum n) \<Rightarrow> JSOther (JNum (n + 1)) | _ \<Rightarrow> v)"

text \<open>One turn of the loop of \<^verbatim>\<open>PUT\<close> on a key and the text of its value.\<close>

definition upsert_entry :: "string \<Rightarrow> nat \<Rightarrow> string \<times> string \<Rightarrow> database \<Rightarrow> database" where
  "upsert_entry userId t kv db = snd (upsert db userId (fst kv) (snd kv) t)"

text \<open>The value of an entry has a text: it is a string, or \<^verbatim>\<open>JSON.stringify\<close> returns
  one.\<close>

definition has_text :: "'o runtime \<Rightarrow> 'o js \<Rightarrow> bool" where
  "has_text rt v = (case valueStr rt v of Inr (Some vs) \<Rightarrow> True | _ \<Rightarrow> False)"

text \<open>The entries that the loop of \<^verbatim>\<open>PUT\<close> writes, each key with the text of its value:
  those before the first entry whose value has no text.\<close>

fun written :: "'o runtime \<Rightarrow> (string \<times> 'o js) list \<Rightarrow> (string \<times> string) list" where
  "written rt [] = []"
| "written rt (entry # entries) =
     (case valueStr rt (snd entry) of
        Inr (Some vs) \<Rightarrow> (fst entry, vs) # written rt entries
      | _ \<Rightarrow> [])"

text \<open>The text written last under a key, if any.\<close>

definition last_written :: "(string \<times> string) list \<Rightarrow> string \<rightharpoonup> string" where
  "last_written kvs = map_of (rev kvs)"

text \<open>Every key written has a record of the user, and each record of the user under a
  written key holds the text written last under the key and the update timestamp \<open>t\<close>.\<close>

definition upserted :: "string \<Rightarrow> nat \<Rightarrow> (string \<times> string) list \<Rightarrow> database \<Rightarrow> bool" where
  "upserted userId t kvs db =
     ((\<forall>kv \<in> set kvs. \<exists>r \<in> set (rows db). matches userId (fst kv) r)
      \<and> (\<forall>r \<in> set (rows db). row_userId r = userId \<longrightarrow>
            (case last_written kvs (row_key r) of
               None \<Rightarrow> True
             | Some vs \<Rightarrow> row_value r = vs \<and> row_updatedAt r = t)))"

text \<open>The number of records of a user under a key.\<close>

definition records :: "database \<Rightarrow> string \<Rightarrow> string \<Rightarrow> nat" where
  "records db userId k = length (filter (matches userId k) (rows db))"

text \<open>What a record holds apart from its update timestamp.\<close>

definition content :: "database \<Rightarrow> (nat \<times> string \<times> string \<times> string) list" where
  "content db = map (\<lambda>r. (row_id r, row_userId r, row_key r, row_value r)) (rows db)"

text \<open>A record after a request has written the entries \<open>kvs\<close> over it at time \<open>t\<close>: a
  record of the user under a written key takes the text written last under the key and the
  time; any other record is as it was.\<close>

definition rewritten :: "string \<Rightarrow> nat \<Rightarrow> (string \<times> string) list \<Rightarrow> user_data \<Rightarrow> user_data" where
  "rewritten userId t kvs r =
     (if row_userId r = userId
      then (case last_written kvs (row_key r) of
              None \<Rightarrow> r
            | Some vs \<Rightarrow> r\<lparr>row_value := vs, row_updatedAt := t\<rparr>)
      else r)"

text \<open>The records that a request of the user on the keys of \<open>kvs\<close> does not concern.\<close>

definition untouched :: "string \<Rightarrow> (string \<times> string) list \<Rightarrow> database \<Rightarrow> user_data list" where
  "untouched userId kvs db =
     filter (\<lambda>r. \<not> (row_userId r = userId \<and> row_key r \<in> fst ` set kvs)) (rows db)"

text \<open>Requests and a table for the examples: an empty table, a \<^verbatim>\<open>PUT\<close> of two entries at
  a given time, a \<^verbatim>\<open>POST\<close> with a given body, a \<^verbatim>\<open>POST\<close> of one string value, and the
  \<^verbatim>\<open>GET\<close> of one key, all of user \<^verbatim>\<open>u1\<close>; and a \<^verbatim>\<open>POST\<close> of nobody.\<close>

definition no_records :: database where
  "no_records = \<lparr>rows = [], next_id = 0\<rparr>"

definition put_theme :: "nat \<Rightarrow> request" where
  "put_theme t =
     \<lparr>auth_user = Some ''u1'', query_key = None,
      body = print_json (JObj [(''theme'', JStr ''dark''), (''size'', JNum 12)]), now = t\<rparr>"

definition post_body :: "string \<Rightarrow> request" where
  "post_body text = \<lparr>auth_user = Some ''u1'', query_key = None, body = text, now = 1\<rparr>"


definition anonymous_post :: "string \<Rightarrow> request" where
  "anonymous_post text = \<lparr>auth_user = None, query_key = None, body = text, now = 1\<rparr>"


section \<open>Properties of the Synced Value Store\<close>

subsection \<open>The Local Cache\<close>

lemma setItem_accepted:
  "window_defined w \<Longrightarrow> localStorage w = Storage m refuses \<Longrightarrow> \<not> refuses k v \<Longrightarrow>
     setItem w k v = Inr (w\<lparr>localStorage := Storage (m(k \<mapsto> v)) refuses\<rparr>)"
  by (simp add: setItem_def)


lemma setItem_fields:
  "setItem w k v = Inr w' \<Longrightarrow>
     network w' = network w \<and> timers w' = timers w \<and> clock w' = clock w
     \<and> timer_count w' = timer_count w"
  by (auto simp: setItem_def split: if_splits local_storage.splits)

lemma setItem_JSON_fields:
  "setItem_JSON rt w k x = Inr w' \<Longrightarrow>
     network w' = network w \<and> timers w' = timers w \<and> clock w' = clock w
     \<and> timer_count w' = timer_count w"
  by (auto simp: setItem_JSON_def dest: setItem_fields split: sum.splits)

lemma clear_if_set_fields [simp]:
  "network (clear_if_set r w) = network w"
  "clock (clear_if_set r w) = clock w"
  "timer_count (clear_if_set r w) = timer_count w"
  "window_defined (clear_if_set r w) = window_defined w"
  "localStorage (clear_if_set r w) = localStorage w"
  by (simp_all add: clear_if_set_def clearTimeout_def split: option.splits)

lemma setValueAndSync_storage:
  assumes "window_defined w" and "localStorage w = Storage m refuses"
    and "JSON_stringify rt (resolve a (val b)) = Inr text"
    and "\<not> refuses (key b) (item_text text)"
  shows "window_defined (snd (setValueAndSync rt a (b, w)))"
    and "localStorage (snd (setValueAndSync rt a (b, w)))
           = Storage (m(key b \<mapsto> item_text text)) refuses"
  using assms
  by (simp_all add: setValueAndSync_def setItem_JSON_def setItem_def Let_def setTimeout_def)

lemma initial_value_parsed:
  assumes "window_defined w" and "localStorage w = Storage m refuses"
    and "m k = Some text" and "text \<noteq> []" and "JSON_parse rt text = Inr v"
  shows "initial_value rt k iv w = v"
  using assms by (simp add: initial_value_def getItem_def)

subsection \<open>The Local Cache round trip\<close>

text \<open>
  Claim C5, as the code has it. Let \<open>v\<close> be JSON-serializable: \<^verbatim>\<open>JSON.stringify(v)\<close> is a
  text (never empty, as no text of JSON is) that \<^verbatim>\<open>JSON.parse\<close> reads back as \<open>v\<close>. Then
  calling \<^verbatim>\<open>setValue(v)\<close> and reading the key back from the Local Cache, as the initialiser
  of the hook does and without a remote refresh, gives \<open>v\<close> again, whatever \<open>initialValue\<close>
  is, provided the page can reach the Local Cache and the cache accepts the write.
\<close>

theorem cache_round_trip:
  assumes "JSON_stringify rt v = Inr (Some text)" and "text \<noteq> []"
    and "JSON_parse rt text = Inr v"
    and "window_defined w" and "localStorage w = Storage m refuses"
    and "\<not> refuses (key b) text"
  shows "initial_value rt (key b) iv (snd (setValueAndSync rt (Literal v) (b, w))) = v"
proof -
  have r: "resolve (Literal v) (val b) = v" by (simp add: resolve_def)
  have s: "JSON_stringify rt (resolve (Literal v) (val b)) = Inr (Some text)"
    by (simp add: r assms(1))
  have acc: "\<not> refuses (key b) (item_text (Some text))"
    by (simp add: item_text_def assms(6))
  note st = setValueAndSync_storage [OF assms(4,5) s acc]
  show ?thesis
    by (rule initial_value_parsed [OF st(1) st(2) _ assms(2,3)]) (simp add: item_text_def)
qed

text \<open>C5 on a nested value, written by a fresh binding into an empty cache.\<close>

theorem cache_round_trip_witness:
  "initial_value example ''theme'' (JSString ''light'')
     (snd (setValueAndSync example
        (Literal (JSOther (JObj [(''mode'', JStr ''dark''), (''sizes'', JArr [JNum 12, JNull])])))
        (useSyncedStorage example ''theme'' (JSString ''light'') None (browser Map.empty),
         browser Map.empty)))
   = JSOther (JObj [(''mode'', JStr ''dark''), (''sizes'', JArr [JNum 12, JNull])])"
proof -
  let ?v = "JSOther (JObj [(''mode'', JStr ''dark''), (''sizes'', JArr [JNum 12, JNull])])"
  let ?text = "print_json (JObj [(''mode'', JStr ''dark''), (''sizes'', JArr [JNum 12, JNull])])"
  let ?b = "useSyncedStorage example ''theme'' (JSString ''light'') None (browser Map.empty)"
  have s: "JSON_stringify example ?v = Inr (Some ?text)"
    by (simp add: example_def json_of_def)
  have n: "?text \<noteq> []" by code_simp
  have p: "JSON_parse example ?text = Inr ?v" by code_simp
  have w: "window_defined (browser Map.empty :: json world)"
    and l: "localStorage (browser Map.empty :: json world) = Storage Map.empty (\<lambda>k v. False)"
    by (simp_all add: browser_def)
  have k: "key ?b = ''theme''" by (simp add: useSyncedStorage_def)
  from cache_round_trip [OF s n p w l, of ?b "JSString ''light''"] k show ?thesis by simp
qed

text \<open>C5 as stated fails when the cache refuses the write (its quota is used up): the
  setter catches the error, and the read finds no entry and gives \<open>initialValue\<close>.\<close>

theorem cache_round_trip_counterexample:
  "initial_value example ''theme'' (JSString ''light'')
     (snd (setValueAndSync example (Literal (JSString ''dark''))
        (useSyncedStorage example ''theme'' (JSString ''light'') None (full_browser Map.empty),
         full_browser Map.empty)))
   = JSString ''light''
   \<and> JSON_parse example (item_text (projr (JSON_stringify example (JSString ''dark''))))
       = Inr (JSString ''dark'')"
proof -
  have "JSON_parse example (item_text (projr (JSON_stringify example (JSString ''dark''))))
       = Inr (JSString ''dark'')"
    by code_simp
  moreover have "initial_value example ''theme'' (JSString ''light'')
     (snd (setValueAndSync example (Literal (JSString ''dark''))
        (useSyncedStorage example ''theme'' (JSString ''light'') None (full_browser Map.empty),
         full_browser Map.empty)))
   = JSString ''light''"
    by (simp add: full_browser_def useSyncedStorage_def initial_value_def getItem_def setItem_def
        setItem_JSON_def item_text_def example_def json_of_def setValueAndSync_def setTimeout_def
        clear_if_set_def resolve_def Let_def)
  ultimately show ?thesis by simp
qed

subsection \<open>The refresh at mount\<close>





subsection \<open>Without a Session Token\<close>

lemma has_token_fields [simp]:
  "has_token (w\<lparr>network := n\<rparr>) = has_token w"
  "has_token (w\<lparr>timers := ts\<rparr>) = has_token w"
  "has_token (w\<lparr>clock := c\<rparr>) = has_token w"
  "has_token (w\<lparr>timer_count := i\<rparr>) = has_token w"
  by (simp_all add: has_token_def getItem_def)

lemma fire_no_token: "\<not> has_token w \<Longrightarrow> fire t w = w"
  by (auto simp: fire_def has_token_def split: sum.splits)

lemma fire_token:
  "has_token w \<Longrightarrow> fire t w = w\<lparr>network := network w @ [SaveUserData (cb_key t) (cb_resolved t)]\<rparr>"
  by (auto simp: fire_def has_token_def split: sum.splits)

lemma fold_fire_no_token: "\<not> has_token w \<Longrightarrow> fold fire ts w = w"
  by (induction ts) (simp_all add: fire_no_token)

lemma advance_no_token: "\<not> has_token w \<Longrightarrow> network (advance d w) = network w"
  by (simp add: advance_def Let_def fold_fire_no_token)

lemma setValueAndSync_network: "network (snd (setValueAndSync rt a s)) = network (snd s)"
  by (auto simp: setValueAndSync_def setItem_JSON_def Let_def setTimeout_def dest: setItem_fields split: sum.splits)

lemma resume_network: "network (snd (snd (loadFromServer_resume rt r s))) = network (snd s)"
  by (cases r)
     (auto simp: loadFromServer_resume_def loadFromServer_try_def setItem_JSON_def Let_def dest: setItem_fields
       split: sum.splits prod.splits if_splits)

lemma resume_timers: "timers (snd (snd (loadFromServer_resume rt r s))) = timers (snd s)"
  by (cases r)
     (auto simp: loadFromServer_resume_def loadFromServer_try_def setItem_JSON_def Let_def dest: setItem_fields
       split: sum.splits prod.splits if_splits)

lemma mount_no_token: "\<not> has_token (snd s) \<Longrightarrow> network (snd (snd (mount s))) = network (snd s)"
  by (auto simp: mount_def loadFromServer_begin_def has_token_def Let_def split: sum.splits)

lemma unmount_network: "network (snd (unmount s)) = network (snd s)"
  by (simp add: unmount_def Let_def)

lemma step_no_token:
  "\<not> has_token (snd s) \<Longrightarrow> network (snd (step rt e s)) = network (snd s)"
  by (cases e)
     (simp_all add: mount_no_token setValueAndSync_network advance_no_token resume_network
       unmount_network)

lemma fire_timers: "timers (fire t w) = timers w"
  by (auto simp: fire_def split: sum.splits)

lemma fold_fire_timers: "timers (fold fire ts w) = timers w"
  by (induction ts arbitrary: w) (simp_all add: fire_timers)

lemma advance_timers:
  "timers (advance d w) = filter (\<lambda>t. \<not> due t \<le> clock w + d) (timers w)"
  by (simp add: advance_def Let_def fold_fire_timers)

lemma run_no_token:
  "token_free rt es s \<Longrightarrow> network (snd (run rt es s)) = network (snd s)"
proof (induction es arbitrary: s)
  case Nil
  then show ?case by (simp add: run_def)
next
  case (Cons e es)
  then have "network (snd (run rt es (step rt e s))) = network (snd (step rt e s))" by simp
  moreover have "network (snd (step rt e s)) = network (snd s)"
    using Cons.prems by (simp add: step_no_token)
  ultimately show ?case by (simp add: run_def)
qed

text \<open>
  Claim C2. If no Session Token is present at any point of a run of a binding (mounting,
  calls of the setter, time passing, replies of the server, teardown), the run sends no
  request. When time passes without a token, the timers that have become due are dropped
  and nothing is sent: the skipped write is not kept for a later retry.
\<close>

theorem no_token_no_request:
  "(token_free rt es s \<longrightarrow> network (snd (run rt es s)) = network (snd s))
   \<and> (\<not> has_token w \<longrightarrow>
        network (advance d w) = network w
        \<and> timers (advance d w) = filter (\<lambda>t. \<not> due t \<le> clock w + d) (timers w))"
  by (simp add: run_no_token advance_no_token advance_timers)

lemmas eval_defs = browser_def useSyncedStorage_def initial_value_def getItem_def setItem_def
  setItem_JSON_def item_text_def example_def json_of_def setValueAndSync_def setTimeout_def clear_if_set_def clearTimeout_def resolve_def advance_def
  fire_def unmount_def mount_def loadFromServer_begin_def loadFromServer_resume_def
  loadFromServer_try_def truthy_string_def has_token_def run_def owns_timers_def Let_def

text \<open>C2 on a binding in anonymous mode: it mounts, the setter is called, the debounce
  interval passes and the binding is torn down; and the timer of a call is gone once the
  interval has passed.\<close>

theorem no_token_no_request_witness:
  "token_free example [Mount, SetValue (Literal (JSString ''dark'')), Advance 1000, Unmount]
     (useSyncedStorage example ''theme'' (JSString ''light'') None (browser Map.empty), browser Map.empty)
   \<and> network (snd (run example [Mount, SetValue (Literal (JSString ''dark'')), Advance 1000, Unmount]
        (useSyncedStorage example ''theme'' (JSString ''light'') None (browser Map.empty), browser Map.empty)))
     = []
   \<and> \<not> has_token (snd (setValueAndSync example (Literal (JSString ''dark''))
        (useSyncedStorage example ''theme'' (JSString ''light'') None (browser Map.empty), browser Map.empty)))
   \<and> timers (advance 1000 (snd (setValueAndSync example (Literal (JSString ''dark''))
        (useSyncedStorage example ''theme'' (JSString ''light'') None (browser Map.empty), browser Map.empty))))
     = []"
proof -
  let ?s = "(useSyncedStorage example ''theme'' (JSString ''light'') None (browser Map.empty), browser Map.empty)"
  let ?w = "snd (setValueAndSync example (Literal (JSString ''dark'')) ?s)"
  have tf: "token_free example [Mount, SetValue (Literal (JSString ''dark'')), Advance 1000, Unmount] ?s"
    by (simp add: eval_defs)
  have nt: "\<not> has_token ?w" by (simp add: eval_defs)
  have ts: "timers ?w = [\<lparr>handle = 1, due = 1000, cb_key = ''theme'', cb_resolved = JSString ''dark''\<rparr>]"
    and c: "clock ?w = 0"
    by (simp_all add: eval_defs)
  from no_token_no_request
    [of example "[Mount, SetValue (Literal (JSString ''dark'')), Advance 1000, Unmount]" ?s ?w 1000]
    tf nt ts c
  show ?thesis by (simp add: browser_def)
qed

subsection \<open>Teardown\<close>

lemma unmount_clears: "owns_timers s \<Longrightarrow> timers (snd (unmount s)) = []"
  by (cases "timers (snd s)")
     (auto simp: unmount_def owns_timers_def clear_if_set_def clearTimeout_def Let_def
       list_all_iff filter_empty_conv split: option.splits)

lemma advance_idle:
  "timers w = [] \<Longrightarrow> timers (advance d w) = [] \<and> network (advance d w) = network w"
  by (simp add: advance_def Let_def)

lemma clear_if_set_idle: "timers w = [] \<Longrightarrow> timers (clear_if_set r w) = []"
  by (simp add: clear_if_set_def clearTimeout_def split: option.splits)

lemma quiet_step_idle:
  "quiet e \<Longrightarrow> timers (snd s) = [] \<Longrightarrow>
     timers (snd (step rt e s)) = [] \<and> network (snd (step rt e s)) = network (snd s)"
  by (cases e)
     (simp_all add: advance_idle resume_timers resume_network unmount_def Let_def clear_if_set_idle)

lemma quiet_run_idle:
  "list_all quiet es \<Longrightarrow> timers (snd s) = [] \<Longrightarrow> network (snd (run rt es s)) = network (snd s)"
proof (induction es arbitrary: s)
  case Nil
  then show ?case by (simp add: run_def)
next
  case (Cons e es)
  from Cons.prems have q: "quiet e" and qs: "list_all quiet es" by simp_all
  note st = quiet_step_idle [OF q Cons.prems(2)]
  from Cons.IH [OF qs, of "step rt e s"] st show ?case by (simp add: run_def)
qed

text \<open>
  Claim C3. Teardown of a binding cancels its pending debounce timer: no timer is pending
  afterwards, and whatever follows (time passing, a reply of the server, another teardown),
  no request is sent, so the value the timer had scheduled is never written remotely.
\<close>

theorem teardown_cancels:
  assumes "owns_timers s" and "list_all quiet es"
  shows "timers (snd (unmount s)) = []
       \<and> network (snd (run rt es (unmount s))) = network (snd s)"
  using quiet_run_idle [OF assms(2) unmount_clears [OF assms(1)]] unmount_clears [OF assms(1)]
  by (simp add: unmount_network)

text \<open>C3 on a binding with a token: a call of the setter arms a timer, teardown removes
  it, and five seconds later nothing has been sent.\<close>

theorem teardown_cancels_witness:
  "timers (snd (setValueAndSync example (Literal (JSString ''dark''))
      (useSyncedStorage example ''theme'' (JSString ''light'') None (browser [''token'' \<mapsto> ''t'']),
       browser [''token'' \<mapsto> ''t''])))
     = [\<lparr>handle = 1, due = 1000, cb_key = ''theme'', cb_resolved = JSString ''dark''\<rparr>]
   \<and> timers (snd (unmount (setValueAndSync example (Literal (JSString ''dark''))
      (useSyncedStorage example ''theme'' (JSString ''light'') None (browser [''token'' \<mapsto> ''t'']),
       browser [''token'' \<mapsto> ''t''])))) = []
   \<and> network (snd (run example [Advance 5000, Reply Failed, Advance 1]
        (unmount (setValueAndSync example (Literal (JSString ''dark''))
          (useSyncedStorage example ''theme'' (JSString ''light'') None (browser [''token'' \<mapsto> ''t'']),
           browser [''token'' \<mapsto> ''t'']))))) = []"
proof -
  let ?s = "setValueAndSync example (Literal (JSString ''dark''))
      (useSyncedStorage example ''theme'' (JSString ''light'') None (browser [''token'' \<mapsto> ''t'']),
       browser [''token'' \<mapsto> ''t''])"
  have t: "timers (snd ?s) = [\<lparr>handle = 1, due = 1000, cb_key = ''theme'', cb_resolved = JSString ''dark''\<rparr>]"
    and r: "saveTimeoutRef (fst ?s) = Some 1" and n: "network (snd ?s) = []"
    by (simp_all add: eval_defs)
  have own: "owns_timers ?s" by (simp add: owns_timers_def t r)
  have q: "list_all quiet [Advance 5000, Reply Failed, Advance 1]" by simp
  from teardown_cancels [OF own q] t n show ?thesis by simp
qed

subsection \<open>Coalescing\<close>

lemma setValueAndSync_arms:
  assumes "owns_timers s"
  shows "timers (snd (setValueAndSync rt a s))
           = [\<lparr>handle = Suc (timer_count (snd s)), due = clock (snd s) + debounce (fst s),
               cb_key = key (fst s), cb_resolved = resolve a (val (fst s))\<rparr>]"
    and "saveTimeoutRef (fst (setValueAndSync rt a s)) = Some (Suc (timer_count (snd s)))"
    and "val (fst (setValueAndSync rt a s)) = resolve a (val (fst s))"
    and "key (fst (setValueAndSync rt a s)) = key (fst s)"
    and "debounce (fst (setValueAndSync rt a s)) = debounce (fst s)"
    and "clock (snd (setValueAndSync rt a s)) = clock (snd s)"
proof -
  have cleared: "timers (clear_if_set (saveTimeoutRef (fst s)) w') = []"
    if "timers w' = timers (snd s)" for w'
    using assms that
    by (cases "timers (snd s)")
       (auto simp: owns_timers_def clear_if_set_def clearTimeout_def list_all_iff
         filter_empty_conv split: option.splits)
  show "timers (snd (setValueAndSync rt a s))
           = [\<lparr>handle = Suc (timer_count (snd s)), due = clock (snd s) + debounce (fst s),
               cb_key = key (fst s), cb_resolved = resolve a (val (fst s))\<rparr>]"
    by (auto simp: setValueAndSync_def setItem_JSON_def Let_def setTimeout_def cleared
        dest: setItem_fields split: sum.splits)
  show "saveTimeoutRef (fst (setValueAndSync rt a s)) = Some (Suc (timer_count (snd s)))"
    by (auto simp: setValueAndSync_def setItem_JSON_def Let_def setTimeout_def
        dest: setItem_fields split: sum.splits)
  show "val (fst (setValueAndSync rt a s)) = resolve a (val (fst s))"
    "key (fst (setValueAndSync rt a s)) = key (fst s)"
    "debounce (fst (setValueAndSync rt a s)) = debounce (fst s)"
    by (simp_all add: setValueAndSync_def setItem_JSON_def Let_def)
  show "clock (snd (setValueAndSync rt a s)) = clock (snd s)"
    by (auto simp: setValueAndSync_def setItem_JSON_def Let_def setTimeout_def
        dest: setItem_fields split: sum.splits)
qed

lemma setValueAndSync_armed: "owns_timers s \<Longrightarrow> armed (setValueAndSync rt a s)"
  using setValueAndSync_arms [of s rt a] by (simp add: armed_def)

lemma armed_wait:
  assumes "armed (b, w)" and "g < debounce b"
  shows "owns_timers (b, advance g w)" and "network (advance g w) = network w"
  using assms
  by (auto simp: armed_def owns_timers_def advance_def Let_def split: list.splits)

lemma burst_armed:
  "armed s \<Longrightarrow> list_all (\<lambda>c. fst c < debounce (fst s)) cs \<Longrightarrow>
     armed (burst rt cs s) \<and> network (snd (burst rt cs s)) = network (snd s)
     \<and> key (fst (burst rt cs s)) = key (fst s) \<and> debounce (fst (burst rt cs s)) = debounce (fst s)"
proof (induction cs arbitrary: s)
  case Nil
  then show ?case by simp
next
  case (Cons c cs)
  obtain b w where s: "s = (b, w)" by (cases s)
  let ?s' = "setValueAndSync rt (snd c) (b, advance (fst c) w)"
  from Cons.prems have g: "fst c < debounce b" and rest: "list_all (\<lambda>c. fst c < debounce b) cs"
    by (simp_all add: s)
  from armed_wait [OF _ g, of w] Cons.prems(1)
  have own: "owns_timers (b, advance (fst c) w)" and net: "network (advance (fst c) w) = network w"
    by (simp_all add: s)
  have a': "armed ?s'" by (rule setValueAndSync_armed [OF own])
  have d': "debounce (fst ?s') = debounce b" "key (fst ?s') = key b"
    using setValueAndSync_arms [OF own, of rt "snd c"] by simp_all
  have n': "network (snd ?s') = network w"
    by (simp add: setValueAndSync_network net)
  from Cons.IH [OF a'] rest d' n' show ?case by (simp add: s)
qed

lemma armed_elapsed:
  assumes "armed (b, w)" and "debounce b \<le> d"
  shows "network (advance d w)
           = network w @ (if has_token w then [SaveUserData (key b) (val b)] else [])"
    and "timers (advance d w) = []"
  using assms
  by (cases "has_token w";
      auto simp: armed_def advance_def Let_def fire_token fire_no_token split: list.splits)+

text \<open>
  Claim C1, as the code has it. A call of the setter cancels the timer armed before and
  arms one new timer, due \<open>debounceMs\<close> later (1000 ms when no option is given). After a
  burst of calls, each made before the timer of the call before it is due (so also when all
  fall within one debounce window), and once the interval has passed after the last call:
  if a Session Token is present then, exactly one remote write has occurred and it carries
  the last resolved value; if none is present, no remote write has occurred. No timer is
  left pending.
\<close>

theorem coalescing:
  assumes "owns_timers s"
    and "list_all (\<lambda>c. fst c < debounce (fst s)) cs"
    and "debounce (fst s) \<le> d"
  shows "timers (snd (setValueAndSync rt a s))
           = [\<lparr>handle = Suc (timer_count (snd s)), due = clock (snd s) + debounce (fst s),
               cb_key = key (fst s), cb_resolved = resolve a (val (fst s))\<rparr>]
       \<and> network (advance d (snd (burst rt cs (setValueAndSync rt a s))))
           = network (snd s) @
               (if has_token (snd (burst rt cs (setValueAndSync rt a s)))
                then [SaveUserData (key (fst s)) (val (fst (burst rt cs (setValueAndSync rt a s))))]
                else [])
       \<and> timers (advance d (snd (burst rt cs (setValueAndSync rt a s)))) = []
       \<and> debounce (useSyncedStorage rt k iv None w) = 1000"
proof -
  let ?s0 = "setValueAndSync rt a s"
  let ?s1 = "burst rt cs ?s0"
  note arms = setValueAndSync_arms [OF assms(1), of rt a]
  have a0: "armed ?s0" by (rule setValueAndSync_armed [OF assms(1)])
  from assms(2) arms(5) have "list_all (\<lambda>c. fst c < debounce (fst ?s0)) cs" by simp
  from burst_armed [OF a0 this]
  have a1: "armed ?s1" and n1: "network (snd ?s1) = network (snd s)"
    and k1: "key (fst ?s1) = key (fst s)" and d1: "debounce (fst ?s1) = debounce (fst s)"
    by (simp_all add: setValueAndSync_network arms)
  from a1 have a1': "armed (fst ?s1, snd ?s1)" by simp
  from assms(3) d1 have "debounce (fst ?s1) \<le> d" by simp
  note el = armed_elapsed [OF a1' this]
  show ?thesis
    using arms(1) el n1 k1 by (simp add: useSyncedStorage_def)
qed

text \<open>C1 on three calls within 700 ms, two of them functional updates: one write, of the
  last value.\<close>

theorem coalescing_witness:
  "network (advance 1000 (snd (burst example [(300, Updater increment), (400, Updater increment)]
      (setValueAndSync example (Literal (JSOther (JNum 1)))
        (useSyncedStorage example ''count'' (JSOther (JNum 0)) None (browser [''token'' \<mapsto> ''t'']),
         browser [''token'' \<mapsto> ''t''])))))
   = [SaveUserData ''count'' (JSOther (JNum 3))]"
proof -
  let ?s = "(useSyncedStorage example ''count'' (JSOther (JNum 0)) None (browser [''token'' \<mapsto> ''t'']),
         browser [''token'' \<mapsto> ''t''])"
  let ?cs = "[(300, Updater increment), (400, Updater increment)]"
  have own: "owns_timers ?s" by (simp add: owns_timers_def browser_def)
  have gaps: "list_all (\<lambda>c. fst c < debounce (fst ?s)) ?cs" by (simp add: useSyncedStorage_def)
  have d: "debounce (fst ?s) \<le> 1000" by (simp add: useSyncedStorage_def)
  have v: "val (fst (burst example ?cs (setValueAndSync example (Literal (JSOther (JNum 1))) ?s))) = JSOther (JNum 3)"
    by (simp add: setValueAndSync_def setItem_JSON_def Let_def resolve_def increment_def)
  have tok: "has_token (snd (burst example ?cs (setValueAndSync example (Literal (JSOther (JNum 1))) ?s)))"
    by (simp add: eval_defs)
  have n0: "network (snd ?s) = []" by (simp add: browser_def)
  have k0: "key (fst ?s) = ''count''" by (simp add: useSyncedStorage_def)
  from coalescing [OF own gaps d, of example "Literal (JSOther (JNum 1))"] v tok n0 k0 show ?thesis by simp
qed

text \<open>C1 as stated fails in anonymous mode: the window elapses and no remote write
  occurs.\<close>

theorem coalescing_counterexample:
  "network (advance 1000 (snd (setValueAndSync example (Literal (JSString ''dark''))
      (useSyncedStorage example ''theme'' (JSString ''light'') None (browser Map.empty), browser Map.empty))))
   = []"
  by (simp add: eval_defs)

section \<open>Properties of the Settings Mirror\<close>

lemma settings_read:
  assumes "window_defined w" and "localStorage w = Storage m refuses"
  shows "settings_initial_value k iv w =
     (case m k of
        None \<Rightarrow> iv
      | Some saved \<Rightarrow>
          if saved = [] then iv
          else if saved = ''true'' then JSBool True
          else if saved = ''false'' then JSBool False
          else JSString saved)"
  using assms by (simp add: settings_initial_value_def getItem_def split: option.splits)

text \<open>
  Claim C8, as the code has it. The initial read of the Settings Mirror looks
  \<open>settingsKey\<close> up in the Local Cache as a raw string. A stored \<^verbatim>\<open>"true"\<close> gives the
  boolean \<open>true\<close>, a stored \<^verbatim>\<open>"false"\<close> the boolean \<open>false\<close>, any other non-empty string
  is returned as it is, and a missing entry gives \<open>initialValue\<close> unchanged. A stored empty
  string is falsy in \<^verbatim>\<open>if (saved)\<close> and gives \<open>initialValue\<close> too.
\<close>

theorem settings_initial_read:
  assumes "window_defined w" and "localStorage w = Storage m refuses"
  shows "settings_initial_value k iv w =
     (case m k of
        None \<Rightarrow> iv
      | Some saved \<Rightarrow>
          if saved = [] then iv
          else if saved = ''true'' then JSBool True
          else if saved = ''false'' then JSBool False
          else JSString saved)"
  using assms by (rule settings_read)

text \<open>The four cases of C8 on concrete caches.\<close>

theorem settings_initial_read_witness:
  "settings_initial_value ''dark'' (JSString ''no'' :: json js) (browser [''dark'' \<mapsto> ''true''])
     = JSBool True
   \<and> settings_initial_value ''dark'' (JSString ''no'' :: json js) (browser [''dark'' \<mapsto> ''false''])
     = JSBool False
   \<and> settings_initial_value ''lang'' (JSString ''en'' :: json js) (browser [''lang'' \<mapsto> ''ru''])
     = JSString ''ru''
   \<and> settings_initial_value ''lang'' (JSString ''en'' :: json js) (browser Map.empty)
     = JSString ''en''"
  using settings_initial_read [of "browser [''dark'' \<mapsto> ''true''] :: json world"
      "[''dark'' \<mapsto> ''true'']" "\<lambda>k v. False" "''dark''" "JSString ''no''"]
    settings_initial_read [of "browser [''dark'' \<mapsto> ''false''] :: json world"
      "[''dark'' \<mapsto> ''false'']" "\<lambda>k v. False" "''dark''" "JSString ''no''"]
    settings_initial_read [of "browser [''lang'' \<mapsto> ''ru''] :: json world"
      "[''lang'' \<mapsto> ''ru'']" "\<lambda>k v. False" "''lang''" "JSString ''en''"]
    settings_initial_read [of "browser Map.empty :: json world" "Map.empty" "\<lambda>k v. False"
      "''lang''" "JSString ''en''"]
  by (simp add: browser_def)

text \<open>C8 as stated fails on a stored empty string: it is not returned as it is.\<close>

theorem settings_initial_read_counterexample:
  "settings_initial_value ''lang'' (JSString ''en'' :: json js) (browser [''lang'' \<mapsto> ''''])
     = JSString ''en''
   \<and> settings_initial_value ''lang'' (JSString ''en'' :: json js) (browser [''lang'' \<mapsto> ''''])
     \<noteq> JSString ''''"
  by (simp add: settings_initial_value_def getItem_def browser_def)

lemma settings_world_after:
  assumes "window_defined w" and "localStorage w = Storage m refuses"
    and "js_String rt v = Inr text" and "\<not> refuses k text"
  shows "window_defined (snd (snd (settings_setValueAndSync rt k v (cur, w))))"
    and "localStorage (snd (snd (settings_setValueAndSync rt k v (cur, w))))
           = Storage (m(k \<mapsto> text)) refuses"
  using assms
  by (auto simp: settings_setValueAndSync_def setItem_String_def setItem_def getItem_def Let_def
      split: option.splits sum.splits)

text \<open>When \<^verbatim>\<open>String(newValue)\<close> throws, the write path stores nothing.\<close>

lemma settings_String_throws:
  "js_String rt v = Inl e \<Longrightarrow>
     localStorage (snd (snd (settings_setValueAndSync rt k v (cur, w)))) = localStorage w"
  by (simp add: settings_setValueAndSync_def setItem_String_def Let_def split: sum.splits)

text \<open>
  Claim C10, as the code has it. The write path stores \<^verbatim>\<open>String(newValue)\<close> in the Local
  Cache, when \<^verbatim>\<open>String\<close> returns and the cache accepts the write. If that string is not
  empty, a later initial read of the key returns it, or the boolean when it is \<^verbatim>\<open>"true"\<close>
  or \<^verbatim>\<open>"false"\<close>. So for every \<open>newValue\<close> that is not a string and whose
  \<^verbatim>\<open>String(newValue)\<close> is neither empty nor \<^verbatim>\<open>"true"\<close> nor \<^verbatim>\<open>"false"\<close> (which excludes the
  booleans), the read returns the string \<^verbatim>\<open>String(newValue)\<close> and not a value equal to
  \<open>newValue\<close>. Whenever the stored string is not empty, only strings and booleans
  survive: if the read returns a value equal to \<open>newValue\<close>, then \<open>newValue\<close> is a string
  or a boolean; and a boolean does survive, and so does a string other than \<^verbatim>\<open>"true"\<close> and
  \<^verbatim>\<open>"false"\<close>.
\<close>

theorem settings_round_trip:
  assumes "window_defined w" and "localStorage w = Storage m refuses"
    and "js_String rt newValue = Inr text" and "\<not> refuses k text" and "text \<noteq> []"
  shows "getItem (snd (snd (settings_setValueAndSync rt k newValue (cur, w)))) k = Inr (Some text)
       \<and> settings_initial_value k iv (snd (snd (settings_setValueAndSync rt k newValue (cur, w))))
           = (if text = ''true'' then JSBool True
              else if text = ''false'' then JSBool False
              else JSString text)
       \<and> (\<not> is_string newValue \<and> text \<noteq> ''true'' \<and> text \<noteq> ''false'' \<longrightarrow>
            settings_initial_value k iv (snd (snd (settings_setValueAndSync rt k newValue (cur, w))))
              = JSString text
            \<and> JSString text \<noteq> newValue)
       \<and> (settings_initial_value k iv (snd (snd (settings_setValueAndSync rt k newValue (cur, w))))
            = newValue \<longrightarrow>
            is_string newValue \<or> is_boolean newValue)
       \<and> (is_boolean newValue \<or> is_string newValue \<and> text \<noteq> ''true'' \<and> text \<noteq> ''false'' \<longrightarrow>
            settings_initial_value k iv (snd (snd (settings_setValueAndSync rt k newValue (cur, w))))
              = newValue)"
proof -
  let ?w = "snd (snd (settings_setValueAndSync rt k newValue (cur, w)))"
  note after = settings_world_after [OF assms(1-4), of cur]
  have stored: "getItem ?w k = Inr (Some text)"
    using after by (simp add: getItem_def)
  have read: "settings_initial_value k iv ?w
           = (if text = ''true'' then JSBool True
              else if text = ''false'' then JSBool False
              else JSString text)"
    using settings_read [OF after, of k iv] assms(5) by simp
  have other: "JSString text \<noteq> newValue" if "\<not> is_string newValue"
    using that by (cases newValue) (simp_all add: is_string_def)
  have only: "is_string newValue \<or> is_boolean newValue"
    if "settings_initial_value k iv ?w = newValue"
    using that read by (cases newValue) (auto simp: is_string_def is_boolean_def split: if_splits)
  have survives: "settings_initial_value k iv ?w = newValue"
    if "is_boolean newValue \<or> is_string newValue \<and> text \<noteq> ''true'' \<and> text \<noteq> ''false''"
    using that read assms(3)
    by (cases newValue) (auto simp: is_string_def is_boolean_def js_String_def split: if_splits)
  from stored read other only survives show ?thesis by auto
qed

text \<open>C10 on the number 5: the cache holds \<^verbatim>\<open>"5"\<close> and the read gives that string;
  and on the boolean \<open>true\<close>, which the read gives back.\<close>

theorem settings_round_trip_witness:
  "getItem (snd (snd (settings_setValueAndSync example ''size'' (JSOther (JNum 5))
      (JSOther (JNum 1), browser Map.empty)))) ''size'' = Inr (Some ''5'')
   \<and> settings_initial_value ''size'' (JSOther (JNum 1))
      (snd (snd (settings_setValueAndSync example ''size'' (JSOther (JNum 5))
         (JSOther (JNum 1), browser Map.empty))))
     = JSString ''5''
   \<and> JSString ''5'' \<noteq> JSOther (JNum 5)
   \<and> settings_initial_value ''dark'' (JSBool False)
      (snd (snd (settings_setValueAndSync example ''dark'' (JSBool True)
         (JSBool False, browser Map.empty))))
     = JSBool True
   \<and> is_boolean (JSBool True :: json js)"
proof -
  have five: "js_String example (JSOther (JNum 5)) = Inr ''5''" by code_simp
  have yes: "js_String example (JSBool True) = Inr ''true''" by (simp add: js_String_def)
  have w: "window_defined (browser Map.empty :: json world)"
    and l: "localStorage (browser Map.empty :: json world) = Storage Map.empty (\<lambda>k v. False)"
    by (simp_all add: browser_def)
  from settings_round_trip [OF w l five, of "''size''" "JSOther (JNum 1)" "JSOther (JNum 1)"]
    settings_round_trip [OF w l yes, of "''dark''" "JSBool False" "JSBool False"]
  show ?thesis by (simp add: is_string_def is_boolean_def)
qed

text \<open>C10 as stated fails on arrays. \<^verbatim>\<open>String([])\<close> is empty, so the read gives
  \<open>initialValue\<close> and not the stored string; when \<open>initialValue\<close> is an empty array too,
  the read gives a value equal to \<open>newValue\<close>, which is neither a string nor a boolean.
  \<^verbatim>\<open>String([true])\<close> is \<^verbatim>\<open>"true"\<close>, so the read gives the boolean. And the string
  \<^verbatim>\<open>"true"\<close> does not survive: the read gives the boolean.\<close>

theorem settings_round_trip_counterexample:
  "js_String example (JSOther (JArr [])) = Inr []
   \<and> settings_initial_value ''tags'' (JSString ''none'')
        (snd (snd (settings_setValueAndSync example ''tags'' (JSOther (JArr []))
           (JSString ''none'', browser Map.empty))))
       = JSString ''none''
   \<and> settings_initial_value ''tags'' (JSOther (JArr []))
        (snd (snd (settings_setValueAndSync example ''tags'' (JSOther (JArr []))
           (JSOther (JArr []), browser Map.empty))))
       = JSOther (JArr [])
   \<and> \<not> is_string (JSOther (JArr [])) \<and> \<not> is_boolean (JSOther (JArr []))
   \<and> js_String example (JSOther (JArr [JBool True])) = Inr ''true''
   \<and> settings_initial_value ''tags'' (JSString ''none'')
        (snd (snd (settings_setValueAndSync example ''tags'' (JSOther (JArr [JBool True]))
           (JSString ''none'', browser Map.empty))))
       = JSBool True
   \<and> settings_initial_value ''tags'' (JSString ''none'' :: json js)
        (snd (snd (settings_setValueAndSync example ''tags'' (JSString ''true'')
           (JSString ''none'', browser Map.empty))))
       = JSBool True"
  by (simp add: settings_initial_value_def settings_setValueAndSync_def setItem_String_def
      js_String_def example_def getItem_def setItem_def browser_def truthy_string_def
      is_string_def is_boolean_def)

section \<open>Properties of the data endpoint\<close>

subsection \<open>A request without a key\<close>

lemma js_get_both:
  "js_get rt b name = Inr x \<Longrightarrow> \<exists>y. js_get rt b name' = Inr y"
  by (cases b) (simp_all add: js_get_def)

text \<open>
  Claim C6, as the code has it. A \<^verbatim>\<open>POST\<close> of an authenticated user whose body is JSON
  for a value that is not \<^verbatim>\<open>null\<close> and has no \<^verbatim>\<open>key\<close> (the body \<^verbatim>\<open>{}\<close>, say) is answered
  with status 400 and an \<^verbatim>\<open>error\<close> field, and the table is as it was. The check of the
  user comes first: a request without a user is answered with status 401 and an \<^verbatim>\<open>error\<close>
  field, whatever its body is, and the table is as it was.
\<close>

theorem post_without_key:
  "((auth_user req = None \<or> auth_user req = Some []) \<longrightarrow>
      POST rt req db
        = (\<lparr>status = 401, payload = ErrorBody not_authorized_text, headers = corsHeaders\<rparr>, db))
   \<and> (auth_user req = Some userId \<and> userId \<noteq> [] \<and> JSON_parse rt (body req) = Inr b
       \<and> js_get rt b ''key'' = Inr JSUndefined \<longrightarrow>
      POST rt req db
        = (\<lparr>status = 400, payload = ErrorBody key_required_text, headers = corsHeaders\<rparr>, db))"
proof -
  have "POST rt req db = (respond 400 (ErrorBody key_required_text), db)"
    if "auth_user req = Some userId" "userId \<noteq> []" "JSON_parse rt (body req) = Inr b"
      "js_get rt b ''key'' = Inr JSUndefined"
  proof -
    from js_get_both [OF that(4), of "''value''"]
    obtain y where "js_get rt b ''value'' = Inr y" by blast
    with that show ?thesis
      by (simp add: POST_def POST_try_def key_required_def truthy_def)
  qed
  moreover have "POST rt req db = (respond 401 (ErrorBody not_authorized_text), db)"
    if "auth_user req = None \<or> auth_user req = Some []"
    using that by (auto simp: POST_def POST_try_def unauthorized_def)
  ultimately show ?thesis by (simp add: respond_def)
qed

text \<open>A key that is present and falsy (\<^verbatim>\<open>""\<close>, \<^verbatim>\<open>0\<close>, \<^verbatim>\<open>false\<close>, \<^verbatim>\<open>null\<close>) is answered
  alike, and no answer other than 200 changes the table.\<close>

lemma post_falsy_key:
  assumes "auth_user req = Some userId" and "userId \<noteq> []"
    and "JSON_parse rt (body req) = Inr b"
    and "js_get rt b ''key'' = Inr k" and "\<not> truthy rt k"
  shows "POST rt req db = (respond 400 (ErrorBody key_required_text), db)"
proof -
  from js_get_both [OF assms(4), of "''value''"]
  obtain y where "js_get rt b ''value'' = Inr y" by blast
  with assms show ?thesis by (simp add: POST_def POST_try_def key_required_def)
qed

lemma post_error_keeps_state:
  "status (fst (POST rt req db)) \<noteq> 200 \<Longrightarrow> snd (POST rt req db) = db"
  by (auto simp: POST_def POST_try_def respond_def unauthorized_def key_required_def
      split: option.splits sum.splits if_splits js.splits prod.splits)

text \<open>C6 on the body \<^verbatim>\<open>{}\<close> and a table of one record, for a user and for nobody.\<close>

theorem post_without_key_witness:
  "POST example (post_body ''{}'')
        \<lparr>rows = [\<lparr>row_id = 0, row_userId = ''u1'', row_key = ''theme'', row_value = ''dark'',
                  row_updatedAt = 3\<rparr>], next_id = 1\<rparr>
   = (\<lparr>status = 400, payload = ErrorBody key_required_text, headers = corsHeaders\<rparr>,
      \<lparr>rows = [\<lparr>row_id = 0, row_userId = ''u1'', row_key = ''theme'', row_value = ''dark'',
                  row_updatedAt = 3\<rparr>], next_id = 1\<rparr>)
   \<and> POST example (anonymous_post ''{}'')
        \<lparr>rows = [\<lparr>row_id = 0, row_userId = ''u1'', row_key = ''theme'', row_value = ''dark'',
                  row_updatedAt = 3\<rparr>], next_id = 1\<rparr>
   = (\<lparr>status = 401, payload = ErrorBody not_authorized_text, headers = corsHeaders\<rparr>,
      \<lparr>rows = [\<lparr>row_id = 0, row_userId = ''u1'', row_key = ''theme'', row_value = ''dark'',
                  row_updatedAt = 3\<rparr>], next_id = 1\<rparr>)"
proof -
  have p: "JSON_parse example (body (post_body ''{}'')) = Inr (JSOther (JObj []))"
    by code_simp
  have g: "js_get example (JSOther (JObj [])) ''key'' = Inr JSUndefined"
    by (simp add: js_get_def example_def)
  have a: "auth_user (post_body ''{}'') = Some ''u1''" "auth_user (anonymous_post ''{}'') = None"
    by (simp_all add: post_body_def anonymous_post_def)
  from post_without_key [of "post_body ''{}''" example _ "''u1''" "JSOther (JObj [])"]
    post_without_key [of "anonymous_post ''{}''" example _ "''u1''" "JSOther (JObj [])"]
    p g a
  show ?thesis by simp
qed

text \<open>C6 as stated fails in three ways: a request without a user and with the body
  \<^verbatim>\<open>{}\<close> is answered with 401; the bodies \<^verbatim>\<open>null\<close> and the empty text have no key either
  and are answered with 500, the first at the pattern of line 82 and the second at
  \<^verbatim>\<open>request.json()\<close>.\<close>

theorem post_without_key_counterexample:
  "status (fst (POST example (anonymous_post ''{}'') no_records)) = 401
   \<and> status (fst (POST example (post_body ''null'') no_records)) = 500
   \<and> status (fst (POST example (post_body '''') no_records)) = 500"
proof -
  have "JSON_parse example ''null'' = Inr JSNull" "JSON_parse example '''' = Inl SyntaxError"
    by code_simp+
  then show ?thesis
    by (simp add: POST_def POST_try_def unauthorized_def respond_def post_body_def
        anonymous_post_def js_get_def)
qed

subsection \<open>Write, then read\<close>






subsection \<open>The same map twice\<close>

lemma find_None_iff: "find P xs = None \<longleftrightarrow> (\<forall>x \<in> set xs. \<not> P x)"
  by (induction xs) auto

lemma find_exists: "(\<exists>x \<in> set xs. P x) \<longleftrightarrow> (\<exists>y. find P xs = Some y)"
  using find_None_iff [of P xs] by auto

lemma upsert_entry_rows:
  "rows (upsert_entry userId t kv db) =
     (if \<exists>r \<in> set (rows db). matches userId (fst kv) r
      then map (\<lambda>x. if matches userId (fst kv) x
                     then x\<lparr>row_value := snd kv, row_updatedAt := t\<rparr> else x) (rows db)
      else rows db @ [\<lparr>row_id = next_id db, row_userId = userId, row_key = fst kv,
                       row_value = snd kv, row_updatedAt = t\<rparr>])"
  by (cases "find (matches userId (fst kv)) (rows db)")
     (simp_all add: upsert_entry_def upsert_def findUnique_def Let_def find_exists)

lemma upsert_entry_next_id:
  "next_id (upsert_entry userId t kv db) =
     (if \<exists>r \<in> set (rows db). matches userId (fst kv) r then next_id db else Suc (next_id db))"
  by (cases "find (matches userId (fst kv)) (rows db)")
     (simp_all add: upsert_entry_def upsert_def findUnique_def Let_def find_exists)

text \<open>A record of the table after one turn of the loop is a record of the entry's key
  with the entry's text and the time of the request, or a record of another key or user
  that was there before.\<close>

lemma upsert_entry_row:
  assumes "r \<in> set (rows (upsert_entry userId t kv db))"
  shows "(matches userId (fst kv) r \<and> row_value r = snd kv \<and> row_updatedAt r = t)
       \<or> (\<not> matches userId (fst kv) r \<and> r \<in> set (rows db))"
proof (cases "\<exists>x \<in> set (rows db). matches userId (fst kv) x")
  case True
  with assms obtain x where x: "x \<in> set (rows db)"
    and r: "r = (if matches userId (fst kv) x
                 then x\<lparr>row_value := snd kv, row_updatedAt := t\<rparr> else x)"
    by (auto simp: upsert_entry_rows)
  show ?thesis
  proof (cases "matches userId (fst kv) x")
    case True
    with r show ?thesis by (simp add: matches_def)
  next
    case False
    with r x show ?thesis by simp
  qed
next
  case False
  with assms have "r \<in> set (rows db)
      \<or> r = \<lparr>row_id = next_id db, row_userId = userId, row_key = fst kv,
              row_value = snd kv, row_updatedAt = t\<rparr>"
    by (auto simp: upsert_entry_rows)
  with False show ?thesis by (auto simp: matches_def)
qed

lemma upsert_entry_keeps:
  assumes "\<exists>r \<in> set (rows db). matches userId k r"
  shows "\<exists>r \<in> set (rows (upsert_entry userId' t kv db)). matches userId k r"
proof -
  from assms obtain r where r: "r \<in> set (rows db)" and m: "matches userId k r" by blast
  let ?f = "\<lambda>x. if matches userId' (fst kv) x
                 then x\<lparr>row_value := snd kv, row_updatedAt := t\<rparr> else x"
  have "matches userId k (?f r)" using m by (simp add: matches_def)
  moreover have "?f r \<in> set (map ?f (rows db))" using r by simp
  ultimately have mapped: "\<exists>x \<in> set (map ?f (rows db)). matches userId k x" by blast
  show ?thesis
  proof (cases "\<exists>x \<in> set (rows db). matches userId' (fst kv) x")
    case True
    then have "rows (upsert_entry userId' t kv db) = map ?f (rows db)"
      by (simp only: upsert_entry_rows if_True)
    with mapped show ?thesis by simp
  next
    case False
    then have "rows (upsert_entry userId' t kv db)
        = rows db @ [\<lparr>row_id = next_id db, row_userId = userId', row_key = fst kv,
                       row_value = snd kv, row_updatedAt = t\<rparr>]"
      by (simp only: upsert_entry_rows if_False)
    then show ?thesis using r m by auto
  qed
qed

lemma upsert_entry_there: "\<exists>r \<in> set (rows (upsert_entry userId t kv db)). matches userId (fst kv) r"
proof (cases "\<exists>r \<in> set (rows db). matches userId (fst kv) r")
  case True
  then show ?thesis by (rule upsert_entry_keeps)
next
  case False
  then have "rows (upsert_entry userId t kv db)
      = rows db @ [\<lparr>row_id = next_id db, row_userId = userId, row_key = fst kv,
                     row_value = snd kv, row_updatedAt = t\<rparr>]"
    by (simp only: upsert_entry_rows if_False)
  then show ?thesis by (simp add: matches_def)
qed

lemma fold_upsert_keeps:
  "\<exists>r \<in> set (rows db). matches userId k r \<Longrightarrow>
   \<exists>r \<in> set (rows (fold (upsert_entry userId' t) kvs db)). matches userId k r"
proof (induction kvs arbitrary: db)
  case Nil
  then show ?case by simp
next
  case (Cons kv kvs)
  from Cons.IH [OF upsert_entry_keeps [OF Cons.prems]] show ?case by simp
qed

lemma fold_upsert_there:
  "kv \<in> set kvs \<Longrightarrow>
   \<exists>r \<in> set (rows (fold (upsert_entry userId t) kvs db)). matches userId (fst kv) r"
proof (induction kvs arbitrary: db)
  case Nil
  then show ?case by simp
next
  case (Cons a kvs)
  show ?case
  proof (cases "kv = a")
    case True
    have "\<exists>r \<in> set (rows (upsert_entry userId t a db)). matches userId (fst a) r"
      by (rule upsert_entry_there)
    from fold_upsert_keeps [OF this] True show ?thesis by simp
  next
    case False
    with Cons.prems have "kv \<in> set kvs" by simp
    from Cons.IH [OF this] show ?thesis by simp
  qed
qed

lemma last_written_snoc:
  "last_written (kvs @ [kv]) k = (if k = fst kv then Some (snd kv) else last_written kvs k)"
  by (cases kv) (simp add: last_written_def)

lemma fold_upsert_values:
  assumes "r \<in> set (rows (fold (upsert_entry userId t) kvs db))"
    and "row_userId r = userId" and "last_written kvs (row_key r) = Some vs"
  shows "row_value r = vs \<and> row_updatedAt r = t"
  using assms
proof (induction kvs arbitrary: r vs rule: rev_induct)
  case Nil
  then show ?case by (simp add: last_written_def)
next
  case (snoc kv kvs)
  from snoc.prems(1)
  have r: "r \<in> set (rows (upsert_entry userId t kv (fold (upsert_entry userId t) kvs db)))"
    by simp
  from upsert_entry_row [OF r] show ?case
  proof
    assume m: "matches userId (fst kv) r \<and> row_value r = snd kv \<and> row_updatedAt r = t"
    then have "row_key r = fst kv" by (simp add: matches_def)
    with snoc.prems(3) have "vs = snd kv" by (simp add: last_written_snoc)
    with m show ?thesis by simp
  next
    assume n: "\<not> matches userId (fst kv) r \<and> r \<in> set (rows (fold (upsert_entry userId t) kvs db))"
    with snoc.prems(2) have "row_key r \<noteq> fst kv" by (simp add: matches_def)
    with snoc.prems(3) have "last_written kvs (row_key r) = Some vs"
      by (simp add: last_written_snoc)
    from snoc.IH [OF _ snoc.prems(2) this] n show ?thesis by simp
  qed
qed

lemma fold_upserted: "upserted userId t kvs (fold (upsert_entry userId t) kvs db)"
  unfolding upserted_def
proof (intro conjI ballI impI)
  fix kv assume "kv \<in> set kvs"
  then show "\<exists>r \<in> set (rows (fold (upsert_entry userId t) kvs db)). matches userId (fst kv) r"
    by (rule fold_upsert_there)
next
  fix r assume r: "r \<in> set (rows (fold (upsert_entry userId t) kvs db))"
    and u: "row_userId r = userId"
  show "case last_written kvs (row_key r) of
          None \<Rightarrow> True
        | Some vs \<Rightarrow> row_value r = vs \<and> row_updatedAt r = t"
    using fold_upsert_values [OF r u] by (cases "last_written kvs (row_key r)") simp_all
qed

text \<open>The number of records under a user and a key.\<close>

lemma length_filter_touch:
  assumes "\<And>x. P (f x) = P x"
  shows "length (filter P (map (\<lambda>x. if Q x then f x else x) xs)) = length (filter P xs)"
  by (induction xs) (simp_all add: assms)

lemma upsert_entry_records:
  "records (upsert_entry userId t kv db) u k =
     (if u = userId \<and> k = fst kv \<and> records db u k = 0 then 1 else records db u k)"
proof (cases "\<exists>r \<in> set (rows db). matches userId (fst kv) r")
  case True
  then have "records db userId (fst kv) \<noteq> 0"
    by (simp add: records_def filter_empty_conv)
  moreover have "records (upsert_entry userId t kv db) u k = records db u k"
    using True unfolding records_def upsert_entry_rows
    by (simp only: if_True) (rule length_filter_touch, simp add: matches_def)
  ultimately show ?thesis by auto
next
  case False
  then have "records db userId (fst kv) = 0"
    by (simp add: records_def filter_empty_conv)
  moreover have "records (upsert_entry userId t kv db) u k
      = records db u k + (if u = userId \<and> k = fst kv then 1 else 0)"
    using False unfolding records_def upsert_entry_rows
    by (simp only: if_False) (auto simp: matches_def)
  ultimately show ?thesis by auto
qed

lemma fold_upsert_records:
  "records (fold (upsert_entry userId t) kvs db) u k =
     (if u = userId \<and> k \<in> fst ` set kvs \<and> records db u k = 0 then 1 else records db u k)"
proof (induction kvs arbitrary: db)
  case Nil
  show ?case by simp
next
  case (Cons kv kvs)
  show ?case
    by (simp only: fold_simps Cons.IH upsert_entry_records) auto
qed

text \<open>The records that the request does not concern.\<close>

lemma filter_touch_same:
  assumes "\<And>x. Q x \<Longrightarrow> \<not> P x" and "\<And>x. P (f x) = P x"
  shows "filter P (map (\<lambda>x. if Q x then f x else x) xs) = filter P xs"
  by (induction xs) (auto simp: assms)

lemma upsert_entry_untouched:
  assumes "fst kv \<in> fst ` set kvs"
  shows "untouched userId kvs (upsert_entry userId t kv db) = untouched userId kvs db"
proof (cases "\<exists>r \<in> set (rows db). matches userId (fst kv) r")
  case True
  show ?thesis
    using True unfolding untouched_def upsert_entry_rows
    by (simp only: if_True) (rule filter_touch_same, insert assms, auto simp: matches_def)
next
  case False
  show ?thesis
    using False assms unfolding untouched_def upsert_entry_rows
    by (simp only: if_False) auto
qed

lemma fold_upsert_untouched:
  "set es \<subseteq> set kvs \<Longrightarrow>
   untouched userId kvs (fold (upsert_entry userId t) es db) = untouched userId kvs db"
proof (induction es arbitrary: db)
  case Nil
  show ?case by simp
next
  case (Cons kv es)
  from Cons.prems have "fst kv \<in> fst ` set kvs" and "set es \<subseteq> set kvs" by auto
  from Cons.IH [OF this(2)] upsert_entry_untouched [OF this(1)] show ?case by simp
qed

text \<open>When each key of the entries has a record already, the loop rewrites the records in
  place.\<close>

lemma rewritten_Nil: "rewritten userId t [] = (\<lambda>r. r)"
  by (rule ext) (simp add: rewritten_def last_written_def)

lemma rewritten_matches: "matches u k (rewritten userId t kvs r) = matches u k r"
  by (simp add: rewritten_def matches_def split: option.splits)

lemma rewritten_snoc:
  "(if matches userId (fst kv) (rewritten userId t kvs r)
    then (rewritten userId t kvs r)\<lparr>row_value := snd kv, row_updatedAt := t\<rparr>
    else rewritten userId t kvs r)
   = rewritten userId t (kvs @ [kv]) r"
  by (simp add: rewritten_def matches_def last_written_snoc split: option.splits)

lemma fold_upsert_rewrites:
  assumes "\<forall>kv \<in> set kvs. \<exists>r \<in> set (rows db). matches userId (fst kv) r"
  shows "rows (fold (upsert_entry userId t) kvs db) = map (rewritten userId t kvs) (rows db)
       \<and> next_id (fold (upsert_entry userId t) kvs db) = next_id db"
  using assms
proof (induction kvs rule: rev_induct)
  case Nil
  show ?case by (simp add: rewritten_Nil)
next
  case (snoc kv kvs)
  let ?db = "fold (upsert_entry userId t) kvs db"
  from snoc.prems have "\<forall>kv \<in> set kvs. \<exists>r \<in> set (rows db). matches userId (fst kv) r"
    by simp
  from snoc.IH [OF this]
  have rws: "rows ?db = map (rewritten userId t kvs) (rows db)" and nid: "next_id ?db = next_id db"
    by simp_all
  from snoc.prems obtain r where "r \<in> set (rows db)" and "matches userId (fst kv) r"
    by auto
  then have "rewritten userId t kvs r \<in> set (rows ?db)"
    and "matches userId (fst kv) (rewritten userId t kvs r)"
    by (simp_all add: rws rewritten_matches)
  then have ex: "\<exists>x \<in> set (rows ?db). matches userId (fst kv) x" by blast
  have "rows (upsert_entry userId t kv ?db)
      = map (\<lambda>x. if matches userId (fst kv) x
                   then x\<lparr>row_value := snd kv, row_updatedAt := t\<rparr> else x) (rows ?db)"
    using ex by (simp only: upsert_entry_rows if_True)
  also have "\<dots> = map (rewritten userId t (kvs @ [kv])) (rows db)"
    by (simp only: rws map_map o_def rewritten_snoc)
  finally have 1: "rows (upsert_entry userId t kv ?db) = map (rewritten userId t (kvs @ [kv])) (rows db)" .
  have 2: "next_id (upsert_entry userId t kv ?db) = next_id db"
    using ex nid by (simp only: upsert_entry_next_id if_True)
  from 1 2 show ?case by simp
qed

lemma rewritten_content:
  assumes "upserted userId t kvs db" and "r \<in> set (rows db)"
  shows "row_id (rewritten userId t' kvs r) = row_id r"
    and "row_userId (rewritten userId t' kvs r) = row_userId r"
    and "row_key (rewritten userId t' kvs r) = row_key r"
    and "row_value (rewritten userId t' kvs r) = row_value r"
    and "rewritten userId t kvs r = r"
proof -
  from assms have v: "last_written kvs (row_key r) = Some vs \<Longrightarrow> row_userId r = userId \<Longrightarrow>
      row_value r = vs \<and> row_updatedAt r = t" for vs
    unfolding upserted_def by (auto split: option.splits)
  show "row_id (rewritten userId t' kvs r) = row_id r"
    "row_userId (rewritten userId t' kvs r) = row_userId r"
    "row_key (rewritten userId t' kvs r) = row_key r"
    by (simp_all add: rewritten_def split: option.splits)
  show "row_value (rewritten userId t' kvs r) = row_value r"
    using v by (simp add: rewritten_def split: option.splits)
  show "rewritten userId t kvs r = r"
    using v by (auto simp: rewritten_def split: option.splits)
qed

lemma fold_upsert_again:
  assumes "upserted userId t kvs db"
  shows "content (fold (upsert_entry userId t') kvs db) = content db"
    and "next_id (fold (upsert_entry userId t') kvs db) = next_id db"
    and "t' = t \<Longrightarrow> fold (upsert_entry userId t') kvs db = db"
proof -
  from assms have ex: "\<forall>kv \<in> set kvs. \<exists>r \<in> set (rows db). matches userId (fst kv) r"
    unfolding upserted_def by simp
  note rw = fold_upsert_rewrites [OF ex]
  show "content (fold (upsert_entry userId t') kvs db) = content db"
    unfolding content_def using rw [of t'] rewritten_content(1-4) [OF assms]
    by (simp add: o_def)
  show n: "next_id (fold (upsert_entry userId t') kvs db) = next_id db"
    using rw [of t'] by simp
  show "fold (upsert_entry userId t') kvs db = db" if "t' = t"
  proof -
    have "map (rewritten userId t kvs) (rows db) = rows db"
      by (rule map_idI) (rule rewritten_content(5) [OF assms])
    with rw [of t] have "rows (fold (upsert_entry userId t) kvs db) = rows db"
      and "next_id (fold (upsert_entry userId t) kvs db) = next_id db" by simp_all
    with that show ?thesis by simp
  qed
qed

text \<open>The loop of \<^verbatim>\<open>PUT\<close> as a fold over the entries it writes.\<close>

lemma put_entries_written:
  "snd (put_entries rt userId t entries db) = fold (upsert_entry userId t) (written rt entries) db"
  by (induction entries arbitrary: db)
     (simp_all add: upsert_entry_def split: sum.splits option.splits)

lemma put_entries_complete:
  "list_all (\<lambda>e. has_text rt (snd e)) entries \<Longrightarrow>
   fst (put_entries rt userId t entries db) = None
   \<and> list_all2 (\<lambda>e kv. fst kv = fst e \<and> valueStr rt (snd e) = Inr (Some (snd kv)))
         entries (written rt entries)"
  by (induction entries arbitrary: db)
     (auto simp: has_text_def split: sum.splits option.splits)

lemma PUT_writes:
  assumes "auth_user r = Some userId" and "userId \<noteq> []"
    and "JSON_parse rt (body r) = Inr b" and "Object_entries rt b = Inr entries"
  shows "snd (PUT rt r d) = fold (upsert_entry userId (now r)) (written rt entries) d"
proof -
  obtain e d' where pe: "put_entries rt userId (now r) entries d = (e, d')"
    by (cases "put_entries rt userId (now r) entries d")
  with put_entries_written [of rt userId "now r" entries d]
  have "d' = fold (upsert_entry userId (now r)) (written rt entries) d" by simp
  with assms pe show ?thesis
    by (simp add: PUT_def PUT_try_def split: option.splits)
qed

lemma PUT_answer:
  assumes "auth_user r = Some userId" and "userId \<noteq> []"
    and "JSON_parse rt (body r) = Inr b" and "Object_entries rt b = Inr entries"
    and "list_all (\<lambda>e. has_text rt (snd e)) entries"
  shows "fst (PUT rt r d) = respond 200 (SavedManyBody (length entries))"
proof -
  obtain e d' where pe: "put_entries rt userId (now r) entries d = (e, d')"
    by (cases "put_entries rt userId (now r) entries d")
  with put_entries_complete [OF assms(5), of userId "now r" d] have "e = None" by simp
  with assms(1-4) pe show ?thesis by (simp add: PUT_def PUT_try_def)
qed

lemma PUT_refused:
  assumes "\<not> (\<exists>userId b entries. auth_user r = Some userId \<and> userId \<noteq> []
    \<and> JSON_parse rt (body r) = Inr b \<and> Object_entries rt b = Inr entries)"
  shows "snd (PUT rt r d) = d"
proof (cases "auth_user r")
  case None
  then show ?thesis by (simp add: PUT_def PUT_try_def)
next
  case (Some userId)
  show ?thesis
  proof (cases "userId = []")
    case True
    with Some show ?thesis by (simp add: PUT_def PUT_try_def)
  next
    case False
    show ?thesis
    proof (cases "JSON_parse rt (body r)")
      case (Inl e)
      with Some False show ?thesis by (simp add: PUT_def PUT_try_def)
    next
      case (Inr b)
      with assms Some False obtain e where "Object_entries rt b = Inl e"
        by (cases "Object_entries rt b") auto
      with Some False Inr show ?thesis by (simp add: PUT_def PUT_try_def)
    qed
  qed
qed

text \<open>
  Claim C7, as the code has it. A second \<^verbatim>\<open>PUT\<close> of the same user with the same body
  leaves the records as the first left them in everything but the update timestamps: the
  same ids, users, keys and values in the same order, and no record is added; the two
  tables are equal when the requests are handled at the same time. For a request of a user
  whose body parses, with the entries that the loop writes (all of them, each with the text
  of its value, when each value has a text, and then the answer is 200 with their number):
  each entry is upserted, that is,
  after the request every written key has a record of the user, each such record holds the
  text written last under its key and the time of the request, a key that had no record
  has exactly one and any other key has as many as before, and the records of other users
  and keys are as they were. After the second request the records of the entries carry the
  time of the second request.
\<close>

theorem put_twice:
  assumes "auth_user req' = auth_user req" and "body req' = body req"
  shows "content (snd (PUT rt req' (snd (PUT rt req db)))) = content (snd (PUT rt req db))
       \<and> next_id (snd (PUT rt req' (snd (PUT rt req db)))) = next_id (snd (PUT rt req db))
       \<and> (now req' = now req \<longrightarrow>
            snd (PUT rt req' (snd (PUT rt req db))) = snd (PUT rt req db))
       \<and> (auth_user req = Some userId \<and> userId \<noteq> [] \<and> JSON_parse rt (body req) = Inr b
          \<and> Object_entries rt b = Inr entries \<longrightarrow>
            upserted userId (now req) (written rt entries) (snd (PUT rt req db))
            \<and> (\<forall>u k. records (snd (PUT rt req db)) u k =
                  (if u = userId \<and> k \<in> fst ` set (written rt entries) \<and> records db u k = 0
                   then 1 else records db u k))
            \<and> untouched userId (written rt entries) (snd (PUT rt req db))
                = untouched userId (written rt entries) db
            \<and> upserted userId (now req') (written rt entries)
                (snd (PUT rt req' (snd (PUT rt req db))))
            \<and> (list_all (\<lambda>e. has_text rt (snd e)) entries \<longrightarrow>
                  list_all2 (\<lambda>e kv. fst kv = fst e \<and> valueStr rt (snd e) = Inr (Some (snd kv)))
                    entries (written rt entries)
                  \<and> fst (PUT rt req db) = respond 200 (SavedManyBody (length entries))))"
proof (cases "\<exists>userId b entries. auth_user req = Some userId \<and> userId \<noteq> []
    \<and> JSON_parse rt (body req) = Inr b \<and> Object_entries rt b = Inr entries")
  case False
  from False have 1: "snd (PUT rt req db) = db" by (rule PUT_refused)
  from False assms have "\<not> (\<exists>userId b entries. auth_user req' = Some userId \<and> userId \<noteq> []
    \<and> JSON_parse rt (body req') = Inr b \<and> Object_entries rt b = Inr entries)" by simp
  then have 2: "snd (PUT rt req' db) = db" by (rule PUT_refused)
  from False show ?thesis by (auto simp: 1 2)
next
  case True
  then obtain u b' es where u: "auth_user req = Some u" "u \<noteq> []"
    and b: "JSON_parse rt (body req) = Inr b'" and en: "Object_entries rt b' = Inr es"
    by blast
  let ?kvs = "written rt es"
  let ?db1 = "fold (upsert_entry u (now req)) ?kvs db"
  let ?db2 = "fold (upsert_entry u (now req')) ?kvs ?db1"
  have 1: "snd (PUT rt req db) = ?db1" by (rule PUT_writes [OF u b en])
  have 2: "snd (PUT rt req' ?db1) = ?db2"
    by (rule PUT_writes [where b = b']) (simp_all add: assms u b en)
  have st: "upserted u (now req) ?kvs ?db1" by (rule fold_upserted)
  have st': "upserted u (now req') ?kvs ?db2" by (rule fold_upserted)
  note again = fold_upsert_again [OF st, of "now req'"]
  have idem: "content ?db2 = content ?db1 \<and> next_id ?db2 = next_id ?db1
      \<and> (now req' = now req \<longrightarrow> ?db2 = ?db1)"
    using again by simp
  have rec: "\<forall>v k. records ?db1 v k =
      (if v = u \<and> k \<in> fst ` set ?kvs \<and> records db v k = 0 then 1 else records db v k)"
    by (simp only: fold_upsert_records) simp
  have unt: "untouched u ?kvs ?db1 = untouched u ?kvs db"
    by (rule fold_upsert_untouched) simp
  have ans: "list_all (\<lambda>e. has_text rt (snd e)) es \<longrightarrow>
      list_all2 (\<lambda>e kv. fst kv = fst e \<and> valueStr rt (snd e) = Inr (Some (snd kv))) es ?kvs
      \<and> fst (PUT rt req db) = respond 200 (SavedManyBody (length es))"
    using put_entries_complete [of rt es u "now req" db] PUT_answer [OF u b en, of db] by blast
  show ?thesis
  proof (intro conjI impI)
    assume h: "auth_user req = Some userId \<and> userId \<noteq> [] \<and> JSON_parse rt (body req) = Inr b
          \<and> Object_entries rt b = Inr entries"
    with u b en have eq: "userId = u" "entries = es" by simp_all
    show "upserted userId (now req) (written rt entries) (snd (PUT rt req db))"
      unfolding eq 1 by (rule st)
    show "\<forall>u k. records (snd (PUT rt req db)) u k =
                  (if u = userId \<and> k \<in> fst ` set (written rt entries) \<and> records db u k = 0
                   then 1 else records db u k)"
      unfolding eq 1 by (rule rec)
    show "untouched userId (written rt entries) (snd (PUT rt req db))
                = untouched userId (written rt entries) db"
      unfolding eq 1 by (rule unt)
    show "upserted userId (now req') (written rt entries)
                (snd (PUT rt req' (snd (PUT rt req db))))"
      unfolding eq 1 2 by (rule st')
    { assume "list_all (\<lambda>e. has_text rt (snd e)) entries"
      with ans eq
      show "list_all2 (\<lambda>e kv. fst kv = fst e \<and> valueStr rt (snd e) = Inr (Some (snd kv)))
              entries (written rt entries)" by simp
    }
    { assume "list_all (\<lambda>e. has_text rt (snd e)) entries"
      with ans eq show "fst (PUT rt req db) = respond 200 (SavedManyBody (length entries))"
        by simp
    }
  qed (insert idem, simp_all add: 1 2)
qed

text \<open>C7 on a map of two entries and an empty table, sent at time 1 and again at time 5,
  and sent twice at time 1.\<close>

theorem put_twice_witness:
  "content (snd (PUT example (put_theme 5) (snd (PUT example (put_theme 1) no_records))))
     = [(0, ''u1'', ''theme'', ''dark''), (1, ''u1'', ''size'', ''12'')]
   \<and> next_id (snd (PUT example (put_theme 5) (snd (PUT example (put_theme 1) no_records)))) = 2
   \<and> snd (PUT example (put_theme 1) (snd (PUT example (put_theme 1) no_records)))
       = snd (PUT example (put_theme 1) no_records)
   \<and> upserted ''u1'' 1 [(''theme'', ''dark''), (''size'', ''12'')]
       (snd (PUT example (put_theme 1) no_records))
   \<and> records (snd (PUT example (put_theme 1) no_records)) ''u1'' ''theme'' = 1
   \<and> untouched ''u1'' [(''theme'', ''dark''), (''size'', ''12'')]
       (snd (PUT example (put_theme 1) no_records)) = []
   \<and> upserted ''u1'' 5 [(''theme'', ''dark''), (''size'', ''12'')]
       (snd (PUT example (put_theme 5) (snd (PUT example (put_theme 1) no_records))))
   \<and> fst (PUT example (put_theme 1) no_records)
       = \<lparr>status = 200, payload = SavedManyBody 2, headers = corsHeaders\<rparr>"
proof -
  let ?b = "JSOther (JObj [(''theme'', JStr ''dark''), (''size'', JNum 12)])"
  let ?es = "[(''theme'', JSString ''dark''), (''size'', JSOther (JNum 12))]"
  have a: "auth_user (put_theme 1) = Some ''u1''" "''u1'' \<noteq> []"
    and same: "auth_user (put_theme 5) = auth_user (put_theme 1)"
      "body (put_theme 5) = body (put_theme 1)"
    by (simp_all add: put_theme_def)
  have p: "JSON_parse example (body (put_theme 1)) = Inr ?b" by code_simp
  have en: "Object_entries example ?b = Inr ?es"
    by (simp add: Object_entries_def example_def js_of_def)
  have wr: "written example ?es = [(''theme'', ''dark''), (''size'', ''12'')]" by code_simp
  have ht: "list_all (\<lambda>e. has_text example (snd e)) ?es" by code_simp
  have c: "content (snd (PUT example (put_theme 1) no_records))
      = [(0, ''u1'', ''theme'', ''dark''), (1, ''u1'', ''size'', ''12'')]"
    and n: "next_id (snd (PUT example (put_theme 1) no_records)) = 2"
    by code_simp+
  have r0: "records no_records ''u1'' ''theme'' = 0"
    and u0: "untouched ''u1'' [(''theme'', ''dark''), (''size'', ''12'')] no_records = []"
    by (simp_all add: records_def untouched_def no_records_def)
  note t = put_twice [where rt = example and db = no_records and userId = "''u1''"
      and b = ?b and entries = ?es]
  from t [OF same] a p en ht
  have 1: "content (snd (PUT example (put_theme 5) (snd (PUT example (put_theme 1) no_records))))
       = content (snd (PUT example (put_theme 1) no_records))"
    and 2: "next_id (snd (PUT example (put_theme 5) (snd (PUT example (put_theme 1) no_records))))
       = next_id (snd (PUT example (put_theme 1) no_records))"
    and 3: "upserted ''u1'' (now (put_theme 1)) (written example ?es)
       (snd (PUT example (put_theme 1) no_records))"
    and 4: "\<forall>u k. records (snd (PUT example (put_theme 1) no_records)) u k =
                  (if u = ''u1'' \<and> k \<in> fst ` set (written example ?es)
                      \<and> records no_records u k = 0
                   then 1 else records no_records u k)"
    and 5: "untouched ''u1'' (written example ?es) (snd (PUT example (put_theme 1) no_records))
       = untouched ''u1'' (written example ?es) no_records"
    and 6: "upserted ''u1'' (now (put_theme 5)) (written example ?es)
       (snd (PUT example (put_theme 5) (snd (PUT example (put_theme 1) no_records))))"
    and 7: "fst (PUT example (put_theme 1) no_records) = respond 200 (SavedManyBody (length ?es))"
    by blast+
  from t [OF refl refl, of "put_theme 1"]
  have 8: "snd (PUT example (put_theme 1) (snd (PUT example (put_theme 1) no_records)))
       = snd (PUT example (put_theme 1) no_records)"
    by blast
  from 4 [unfolded wr] have 9: "records (snd (PUT example (put_theme 1) no_records)) ''u1'' ''theme'' = 1"
    by (simp add: r0)
  have tm: "now (put_theme 1) = 1" "now (put_theme 5) = 5" by (simp_all add: put_theme_def)
  from 1 2 3 [unfolded wr tm] 5 [unfolded wr] 6 [unfolded wr tm] 7 8 9 c n show ?thesis
    by (simp add: u0 respond_def)
qed

text \<open>C7 as stated fails: after the second request the records carry its time.\<close>

theorem put_twice_counterexample:
  "snd (PUT example (put_theme 1) no_records)
     = \<lparr>rows = [\<lparr>row_id = 0, row_userId = ''u1'', row_key = ''theme'', row_value = ''dark'',
                 row_updatedAt = 1\<rparr>,
                \<lparr>row_id = 1, row_userId = ''u1'', row_key = ''size'', row_value = ''12'',
                 row_updatedAt = 1\<rparr>], next_id = 2\<rparr>
   \<and> snd (PUT example (put_theme 5) (snd (PUT example (put_theme 1) no_records)))
     = \<lparr>rows = [\<lparr>row_id = 0, row_userId = ''u1'', row_key = ''theme'', row_value = ''dark'',
                 row_updatedAt = 5\<rparr>,
                \<lparr>row_id = 1, row_userId = ''u1'', row_key = ''size'', row_value = ''12'',
                 row_updatedAt = 5\<rparr>], next_id = 2\<rparr>"
  by code_simp


end
